theory Spec2Isabelle
  imports
    Complex_Main
    "HOL-Library.AList"
    "HOL-Library.Sublist"
    "HOL-Library.Multiset"
    "HOL-Library.Char_ord"
    "HOL-Library.List_Lexorder"
begin

section \<open>Strings and dictionaries of the source language\<close>

text \<open>
  Column names are Python strings. The model uses \<^typ>\<open>string\<close> and lower-cases the
  letters \<open>A\<close> to \<open>Z\<close>, which is what \<^verbatim>\<open>str.lower()\<close> does on ASCII names.
\<close>

definition lower_char :: "char \<Rightarrow> char" where
  "lower_char c =
     (case map_of (zip ''ABCDEFGHIJKLMNOPQRSTUVWXYZ'' ''abcdefghijklmnopqrstuvwxyz'') c of
        Some d \<Rightarrow> d
      | None \<Rightarrow> c)"

definition lower :: "string \<Rightarrow> string" where
  "lower s = map lower_char s"

text \<open>\<^verbatim>\<open>pattern in col_lower\<close>: the pattern occurs as a contiguous piece of the name.\<close>

fun str_contains :: "string \<Rightarrow> string \<Rightarrow> bool" where
  "str_contains [] pat = (pat = [])"
| "str_contains (c # s) pat = (prefix pat (c # s) \<or> str_contains s pat)"

text \<open>
  A Python \<^verbatim>\<open>dict\<close> keeps its keys in the order of their first insertion, and a later
  assignment to a key replaces the value in place: this is \<^const>\<open>AList.update\<close> on an
  association list. The comprehension
  \<^verbatim>\<open>{col.lower(): col for col in df.columns}\<close> inserts the columns from left to right.
\<close>

definition columns_lower :: "string list \<Rightarrow> (string \<times> string) list" where
  "columns_lower cols = foldl (\<lambda>d col. AList.update (lower col) col d) [] cols"

section \<open>Schema resolution: \<^verbatim>\<open>detect_columns\<close>\<close>

datatype role = Task | Duration | Phase | Start_date | End_date

text \<open>The \<^verbatim>\<open>patterns\<close> dictionary, in the order the source writes it.\<close>

definition patterns :: "(role \<times> string list) list" where
  "patterns =
     [(Task, [''task'', ''name'', ''description'']),
      (Duration, [''duration'', ''weeks'', ''days'']),
      (Phase, [''phase'', ''category'', ''group'']),
      (Start_date, [''start'', ''begin'']),
      (End_date, [''end'', ''finish''])]"

definition required_cols :: "role list" where
  "required_cols = [Task, Start_date, End_date]"

text \<open>
  The exceptions the modelled functions can raise. \<open>ValueError_required_columns\<close> is
  \<^verbatim>\<open>ValueError(f"Required columns not found: {', '.join(missing_cols)}")\<close> with the list
  that is joined into the message; the others arise in \<^verbatim>\<open>create_gantt_chart\<close>.
\<close>

datatype error =
    ValueError_required_columns "role list"
  | KeyError string
  | DateParseError string
  | TypeError_not_orderable
  | ValueError_NaT_range
  | NaT_not_modelled

text \<open>
  The innermost loop: the first entry of \<^verbatim>\<open>columns_lower\<close> whose key contains the
  pattern assigns its original spelling and breaks.
\<close>

fun first_match :: "string \<Rightarrow> (string \<times> string) list \<Rightarrow> string option" where
  "first_match pat [] = None"
| "first_match pat ((col_lower, col_original) # d) =
     (if str_contains col_lower pat then Some col_original else first_match pat d)"

text \<open>
  The loop over one role's patterns: after each pattern the source tests
  \<^verbatim>\<open>if key in column_mapping: break\<close>.
\<close>

fun try_patterns ::
  "role \<Rightarrow> string list \<Rightarrow> (string \<times> string) list \<Rightarrow> (role \<rightharpoonup> string) \<Rightarrow> (role \<rightharpoonup> string)"
where
  "try_patterns key [] d m = m"
| "try_patterns key (pat # pats) d m =
     (let m' = (case first_match pat d of Some col \<Rightarrow> m(key \<mapsto> col) | None \<Rightarrow> m)
      in if m' key \<noteq> None then m' else try_patterns key pats d m')"

text \<open>The outer loop over \<^verbatim>\<open>patterns.items()\<close>.\<close>

fun find_columns ::
  "(role \<times> string list) list \<Rightarrow> (string \<times> string) list \<Rightarrow> (role \<rightharpoonup> string) \<Rightarrow> (role \<rightharpoonup> string)"
where
  "find_columns [] d m = m"
| "find_columns ((key, pats) # rest) d m = find_columns rest d (try_patterns key pats d m)"

text \<open>The dictionary \<^verbatim>\<open>column_mapping\<close> as it stands after the loops.\<close>

definition column_mapping :: "string list \<Rightarrow> (role \<rightharpoonup> string)" where
  "column_mapping cols = find_columns patterns (columns_lower cols) Map.empty"

definition detect_columns :: "string list \<Rightarrow> error + (role \<rightharpoonup> string)" where
  "detect_columns cols =
     (let missing_cols = filter (\<lambda>col. column_mapping cols col = None) required_cols
      in if missing_cols \<noteq> [] then Inl (ValueError_required_columns missing_cols)
         else Inr (column_mapping cols))"

subsection \<open>The resolution policy in the words of the specification\<close>

text \<open>
  The patterns of a role are tried in priority order; the first pattern that some column
  matches decides, and within it the first column in table order whose lower-cased name
  contains the pattern.
\<close>

definition matches :: "string \<Rightarrow> string \<Rightarrow> bool" where
  "matches pat col = str_contains (lower col) pat"

definition first_column :: "string list \<Rightarrow> string list \<Rightarrow> string option" where
  "first_column pats cols =
     (case filter (\<lambda>pat. \<exists>col \<in> set cols. matches pat col) pats of
        [] \<Rightarrow> None
      | pat # _ \<Rightarrow> find (matches pat) cols)"

text \<open>The last column in table order that has the same lower-cased name as \<open>col\<close>.\<close>

definition last_same_lower :: "string list \<Rightarrow> string \<Rightarrow> string" where
  "last_same_lower cols col = last (filter (\<lambda>c. lower c = lower col) cols)"

definition patterns_of :: "role \<Rightarrow> string list" where
  "patterns_of r = (case map_of patterns r of Some pats \<Rightarrow> pats | None \<Rightarrow> [])"

text \<open>One role taken alone: its patterns in order, each against the whole dictionary.\<close>

fun match_patterns :: "string list \<Rightarrow> (string \<times> string) list \<Rightarrow> string option" where
  "match_patterns [] d = None"
| "match_patterns (pat # pats) d =
     (case first_match pat d of Some col \<Rightarrow> Some col | None \<Rightarrow> match_patterns pats d)"

text \<open>A role cannot be matched when no column contains any of its patterns.\<close>

definition unmatched :: "string list \<Rightarrow> role \<Rightarrow> bool" where
  "unmatched cols r \<longleftrightarrow> \<not> (\<exists>pat \<in> set (patterns_of r). \<exists>col \<in> set cols. matches pat col)"

section \<open>Tables and dates\<close>

text \<open>
  A date cell holds a pandas \<^verbatim>\<open>Timestamp\<close>: a calendar date and a time of day, the latter
  in nanoseconds since midnight. \<open>date2num\<close> is the number of days from 1970-01-01 to the
  calendar date, and \<open>stamp_value\<close> is \<^verbatim>\<open>Timestamp.value\<close>, the nanoseconds since
  1970-01-01 00:00. Timestamps are compared and subtracted by this value.
\<close>

record timestamp =
  year :: int
  month :: int
  day :: int
  nanos :: int

definition date2num :: "timestamp \<Rightarrow> int" where
  "date2num d =
     (let y = (if month d \<le> 2 then year d - 1 else year d);
          mp = (if month d \<le> 2 then month d + 9 else month d - 3)
      in 365 * y + y div 4 - y div 100 + y div 400 + (153 * mp + 2) div 5 + day d - 1 - 719468)"

definition is_leap :: "int \<Rightarrow> bool" where
  "is_leap y \<longleftrightarrow> y mod 4 = 0 \<and> (y mod 100 \<noteq> 0 \<or> y mod 400 = 0)"

definition days_in_month :: "int \<Rightarrow> int \<Rightarrow> int" where
  "days_in_month y m =
     (if m = 2 then (if is_leap y then 29 else 28)
      else if m = 4 \<or> m = 6 \<or> m = 9 \<or> m = 11 then 30 else 31)"

definition ns_per_day :: int where
  "ns_per_day = 86400000000000"

definition stamp_value :: "timestamp \<Rightarrow> int" where
  "stamp_value t = date2num t * ns_per_day + nanos t"

definition valid_timestamp :: "timestamp \<Rightarrow> bool" where
  "valid_timestamp t \<longleftrightarrow>
     1 \<le> month t \<and> month t \<le> 12 \<and> 1 \<le> day t \<and> day t \<le> days_in_month (year t) (month t) \<and>
     0 \<le> nanos t \<and> nanos t < ns_per_day"

text \<open>\<^verbatim>\<open>Timestamp.weekday()\<close>: Monday is 0 and Sunday is 6; 1970-01-01 was a Thursday.\<close>

definition weekday :: "int \<Rightarrow> int" where
  "weekday n = (n + 3) mod 7"

text \<open>
  A cell of the table: text, a date, or a blank (\<^verbatim>\<open>NaN\<close>, in a date column \<^verbatim>\<open>NaT\<close>).
  A row maps column names to cells; the table records its column names, the dtype of
  each column as far as the source asks for it, and its rows in order.
\<close>

datatype cell = Text string | Date timestamp | NaN

datatype dtype = Object_dtype | Datetime64

record dataframe =
  columns :: "string list"
  dtypes :: "string \<Rightarrow> dtype"
  rows :: "(string \<Rightarrow> cell) list"

text \<open>
  The two pandas routines the source relies on without fixing their result itself:
  \<^verbatim>\<open>sort_values\<close>, called with the default \<^verbatim>\<open>kind='quicksort'\<close>, and the text parser
  behind \<^verbatim>\<open>pd.to_datetime\<close>. The sorting routine is only known to return the rows in
  ascending order of the key; pandas documents its default algorithm as not stable.
\<close>

record pandas =
  sort_values :: "((string \<Rightarrow> cell) \<Rightarrow> int) \<Rightarrow> (string \<Rightarrow> cell) list \<Rightarrow> (string \<Rightarrow> cell) list"
  parse_datetime :: "string \<Rightarrow> timestamp option"

definition sorts_ascending :: "pandas \<Rightarrow> bool" where
  "sorts_ascending pd \<longleftrightarrow>
     (\<forall>key rs. mset (sort_values pd key rs) = mset rs \<and> sorted (map key (sort_values pd key rs)))"

text \<open>
  \<^verbatim>\<open>pd.to_datetime\<close> on one cell: a date stays, text is parsed or the call raises. A blank
  would become \<^verbatim>\<open>NaT\<close>; charts of rows without a date are outside this model.
\<close>

fun to_datetime_cell :: "pandas \<Rightarrow> cell \<Rightarrow> error + cell" where
  "to_datetime_cell pd (Date d) = Inr (Date d)"
| "to_datetime_cell pd (Text s) =
     (case parse_datetime pd s of Some d \<Rightarrow> Inr (Date d) | None \<Rightarrow> Inl (DateParseError s))"
| "to_datetime_cell pd NaN = Inl NaT_not_modelled"

fun to_datetime :: "pandas \<Rightarrow> string \<Rightarrow> (string \<Rightarrow> cell) list \<Rightarrow> error + (string \<Rightarrow> cell) list" where
  "to_datetime pd col [] = Inr []"
| "to_datetime pd col (r # rs) =
     (case to_datetime_cell pd (r col) of
        Inl e \<Rightarrow> Inl e
      | Inr c \<Rightarrow> (case to_datetime pd col rs of Inl e \<Rightarrow> Inl e | Inr rs' \<Rightarrow> Inr (r(col := c) # rs')))"

definition is_date :: "cell \<Rightarrow> bool" where
  "is_date c = (case c of Date _ \<Rightarrow> True | _ \<Rightarrow> False)"

text \<open>
  \<^verbatim>\<open>if not is_datetime64_any_dtype(df[col]): df[col] = pd.to_datetime(df[col])\<close>.
  The assignment stores the converted column in the table that was passed in.
\<close>

definition normalize_dates :: "pandas \<Rightarrow> string \<Rightarrow> dataframe \<Rightarrow> error + dataframe" where
  "normalize_dates pd col df =
     (if col \<notin> set (columns df) then Inl (KeyError col)
      else if dtypes df col = Datetime64
        then (if \<forall>r \<in> set (rows df). is_date (r col) then Inr df else Inl NaT_not_modelled)
      else (case to_datetime pd col (rows df) of
              Inl e \<Rightarrow> Inl e
            | Inr rs \<Rightarrow> Inr (df\<lparr>dtypes := (dtypes df)(col := Datetime64), rows := rs\<rparr>)))"

text \<open>The date in a cell of a normalised date column.\<close>

definition cell_date :: "cell \<Rightarrow> timestamp" where
  "cell_date c = (case c of Date d \<Rightarrow> d | _ \<Rightarrow> \<lparr>year = 1970, month = 1, day = 1, nanos = 0\<rparr>)"

text \<open>The value by which the rows are sorted and compared: the timestamp in a date column.\<close>

definition date_key :: "string \<Rightarrow> (string \<Rightarrow> cell) \<Rightarrow> int" where
  "date_key col r = stamp_value (cell_date (r col))"

section \<open>Phases and colours\<close>

text \<open>\<^verbatim>\<open>Series.unique()\<close>: the distinct values in order of first appearance.\<close>

definition unique :: "'a list \<Rightarrow> 'a list" where
  "unique xs = rev (remdups (rev xs))"

definition is_text :: "cell \<Rightarrow> bool" where
  "is_text c = (case c of Text _ \<Rightarrow> True | _ \<Rightarrow> False)"

definition cell_text :: "cell \<Rightarrow> string" where
  "cell_text c = (case c of Text s \<Rightarrow> s | _ \<Rightarrow> [])"

text \<open>
  Python's \<^verbatim>\<open>sorted\<close> on the distinct phase values: text sorts in code-point order and
  dates by time; comparing values of different kinds raises \<^verbatim>\<open>TypeError\<close>. A column of
  blanks only is outside this model.
\<close>

definition py_sorted :: "cell list \<Rightarrow> error + cell list" where
  "py_sorted xs =
     (if \<forall>x \<in> set xs. is_text x then Inr (sort_key cell_text xs)
      else if \<forall>x \<in> set xs. is_date x then Inr (sort_key (\<lambda>c. stamp_value (cell_date c)) xs)
      else if \<forall>x \<in> set xs. x = NaN then Inl NaT_not_modelled
      else Inl TypeError_not_orderable)"

text \<open>
  A colour is a colour string (\<^verbatim>\<open>'blue'\<close>, \<^verbatim>\<open>'#1f2937'\<close>) or an entry of the palette
  \<^verbatim>\<open>plt.cm.Dark2.colors\<close>, which has eight colours.
\<close>

datatype color = Named string | Dark2 nat

definition default_color :: "nat \<Rightarrow> color" where
  "default_color i = Dark2 (i mod 8)"

text \<open>\<^verbatim>\<open>custom_colors.get(phase)\<close>: the keys of \<^verbatim>\<open>custom_colors\<close> are strings.\<close>

definition custom_get :: "(string \<times> string) list \<Rightarrow> cell \<Rightarrow> color option" where
  "custom_get cc phase = (case phase of Text s \<Rightarrow> map_option Named (map_of cc s) | _ \<Rightarrow> None)"

definition phase_color :: "(string \<times> string) list option \<Rightarrow> nat \<Rightarrow> cell \<Rightarrow> color" where
  "phase_color custom_colors i phase =
     (case custom_colors of
        None \<Rightarrow> default_color i
      | Some cc \<Rightarrow>
          if cc \<noteq> [] then (case custom_get cc phase of Some c \<Rightarrow> c | None \<Rightarrow> default_color i)
          else default_color i)"

definition build_color_map :: "(string \<times> string) list option \<Rightarrow> cell list \<Rightarrow> (cell \<times> color) list" where
  "build_color_map custom_colors phases =
     map (\<lambda>(i, phase). (phase, phase_color custom_colors i phase)) (enumerate 0 phases)"

section \<open>Layout: \<^verbatim>\<open>create_gantt_chart\<close>\<close>

datatype label = Cell_text cell | Days_text int

record bar =
  y_pos :: int
  task :: cell
  left :: timestamp
  width :: int
  color :: color
  duration_text :: label

record gridline =
  position :: int
  line_color :: string
  linestyle :: string
  alpha :: rat

record chart =
  bars :: "bar list"
  y_ticks :: "int list"
  y_ticklabels :: "cell list"
  week_lines :: "gridline list"
  month_lines :: "gridline list"
  legend :: "(cell \<times> color) list"
  facecolor :: string

text \<open>\<^verbatim>\<open>phase_col and phase_col in df.columns\<close>, and the same test for the duration column.\<close>

definition in_columns :: "string option \<Rightarrow> dataframe \<Rightarrow> bool" where
  "in_columns col df = (case col of None \<Rightarrow> False | Some c \<Rightarrow> c \<noteq> [] \<and> c \<in> set (columns df))"

text \<open>
  \<^verbatim>\<open>(end_date - start_date).days\<close> is the difference in whole days, rounded down; the
  source replaces a result of zero or less by 1.
\<close>

definition duration_days :: "timestamp \<Rightarrow> timestamp \<Rightarrow> int" where
  "duration_days start_date end_date =
     (let d = (stamp_value end_date - stamp_value start_date) div ns_per_day
      in if d \<le> 0 then 1 else d)"

text \<open>The body of the loop over \<^verbatim>\<open>enumerate(df.iterrows())\<close>, for the row at index \<open>i\<close>.\<close>

definition make_bar ::
  "nat \<Rightarrow> string \<Rightarrow> string \<Rightarrow> string \<Rightarrow> string option \<Rightarrow> string option \<Rightarrow> bool \<Rightarrow> bool
    \<Rightarrow> (cell \<times> color) list \<Rightarrow> nat \<times> (string \<Rightarrow> cell) \<Rightarrow> bar"
where
  "make_bar n task_col start_col end_col phase_col duration_col has_phase has_duration color_map ir =
     (let i = fst ir; row = snd ir;
          start_date = cell_date (row start_col);
          end_date = cell_date (row end_col);
          days = duration_days start_date end_date
      in \<lparr>y_pos = int n - 1 - int i,
          task = row task_col,
          left = start_date,
          width = days,
          color = (if has_phase
                   then (case map_of color_map (row (the phase_col)) of
                           Some c \<Rightarrow> c | None \<Rightarrow> Named ''blue'')
                   else Named ''steelblue''),
          duration_text = (if has_duration then Cell_text (row (the duration_col))
                           else Days_text days)\<rparr>)"

text \<open>\<^verbatim>\<open>Series.min()\<close> and \<^verbatim>\<open>Series.max()\<close> of a date column; \<^verbatim>\<open>NaT\<close> for no rows.\<close>

definition series_min :: "timestamp list \<Rightarrow> timestamp option" where
  "series_min ds =
     (case ds of [] \<Rightarrow> None
      | d # ds' \<Rightarrow> Some (fold (\<lambda>x m. if stamp_value x < stamp_value m then x else m) ds' d))"

definition series_max :: "timestamp list \<Rightarrow> timestamp option" where
  "series_max ds =
     (case ds of [] \<Rightarrow> None
      | d # ds' \<Rightarrow> Some (fold (\<lambda>x m. if stamp_value m < stamp_value x then x else m) ds' d))"

text \<open>
  \<^verbatim>\<open>pd.date_range(start, end, freq='W')\<close>: weekly, anchored on Sundays. The range starts
  at \<open>start\<close> moved forward to the next Sunday (keeping its time of day) unless it is a
  Sunday already, and goes on in steps of seven days while it does not pass \<open>end\<close>.
  Positions are nanoseconds since 1970-01-01 00:00.
\<close>

definition date_range_W :: "timestamp \<Rightarrow> timestamp \<Rightarrow> int list" where
  "date_range_W start_date end_date =
     (let s = stamp_value start_date; e = stamp_value end_date;
          first = s + ((6 - weekday (date2num start_date)) mod 7) * ns_per_day
      in map (\<lambda>i. first + i * (7 * ns_per_day)) [0..(e - first) div (7 * ns_per_day)])"

text \<open>
  \<^verbatim>\<open>pd.date_range(start, end, freq='MS')\<close>: month starts. The range starts at \<open>start\<close>
  moved forward to the first day of the next month (keeping its time of day) unless it
  is on a first day already, and goes on month by month while it does not pass \<open>end\<close>.
  Months are counted as \<open>12 * year + month - 1\<close>.
\<close>

definition month_index :: "timestamp \<Rightarrow> int" where
  "month_index t = 12 * year t + month t - 1"

definition month_start :: "int \<Rightarrow> int \<Rightarrow> timestamp" where
  "month_start k n = \<lparr>year = k div 12, month = k mod 12 + 1, day = 1, nanos = n\<rparr>"

definition date_range_MS :: "timestamp \<Rightarrow> timestamp \<Rightarrow> int list" where
  "date_range_MS start_date end_date =
     (let k0 = (if day start_date = 1 then month_index start_date else month_index start_date + 1)
      in filter (\<lambda>p. p \<le> stamp_value end_date)
           (map (\<lambda>k. stamp_value (month_start k (nanos start_date)))
                [k0..month_index end_date]))"

text \<open>
  Everything after the date columns are normalised: sorting, the colour map, the bars and
  the grid lines. The weekly lines are drawn dashed with \<^verbatim>\<open>alpha=0.3\<close>, the monthly lines
  solid with \<^verbatim>\<open>alpha=0.2\<close>. Building a date range from \<^verbatim>\<open>NaT\<close> bounds raises
  \<^verbatim>\<open>ValueError\<close>.
\<close>

definition layout ::
  "pandas \<Rightarrow> dataframe \<Rightarrow> string \<Rightarrow> string \<Rightarrow> string \<Rightarrow> string option \<Rightarrow> string option
    \<Rightarrow> (string \<times> string) list option \<Rightarrow> string \<Rightarrow> string \<Rightarrow> error + chart"
where
  "layout pd df task_col start_col end_col phase_col duration_col custom_colors
      background_color grid_color =
     (let sorted_rows = sort_values pd (date_key start_col) (rows df);
          has_phase = in_columns phase_col df;
          has_duration = in_columns duration_col df
      in case (if has_phase
               then py_sorted (unique (map (\<lambda>r. r (the phase_col)) sorted_rows))
               else Inr [])
         of Inl e \<Rightarrow> Inl e
          | Inr phases \<Rightarrow>
         (let color_map = (if has_phase then build_color_map custom_colors phases else [])
          in if sorted_rows \<noteq> [] \<and> task_col \<notin> set (columns df) then Inl (KeyError task_col)
             else
               (let bs = map (make_bar (length sorted_rows) task_col start_col end_col
                               phase_col duration_col has_phase has_duration color_map)
                             (enumerate 0 sorted_rows)
                in case (series_min (map (\<lambda>r. cell_date (r start_col)) sorted_rows),
                         series_max (map (\<lambda>r. cell_date (r end_col)) sorted_rows))
                   of (Some start, Some end) \<Rightarrow>
                        Inr \<lparr>bars = bs,
                             y_ticks = map y_pos bs,
                             y_ticklabels = map task bs,
                             week_lines =
                               map (\<lambda>p. \<lparr>position = p, line_color = grid_color,
                                          linestyle = ''--'', alpha = 3 / 10\<rparr>)
                                   (date_range_W start end),
                             month_lines =
                               map (\<lambda>p. \<lparr>position = p, line_color = grid_color,
                                          linestyle = ''-'', alpha = 2 / 10\<rparr>)
                                   (date_range_MS start end),
                             legend = color_map,
                             facecolor = background_color\<rparr>
                    | _ \<Rightarrow> Inl ValueError_NaT_range)))"

text \<open>
  The whole function. Its result is the chart or the exception, together with the table
  as the caller finds it afterwards: the source assigns the converted date columns to the
  table it was given, while the sorted table is only a local value.
\<close>

definition create_gantt_chart ::
  "pandas \<Rightarrow> dataframe \<Rightarrow> (role \<rightharpoonup> string) \<Rightarrow> (string \<times> string) list option \<Rightarrow> string \<Rightarrow> string
    \<Rightarrow> (error + chart) \<times> dataframe"
where
  "create_gantt_chart pd df cols custom_colors background_color grid_color =
     (case cols Task of
        None \<Rightarrow> (Inl (KeyError ''task''), df)
      | Some task_col \<Rightarrow>
     (case cols Start_date of
        None \<Rightarrow> (Inl (KeyError ''start_date''), df)
      | Some start_col \<Rightarrow>
     (case cols End_date of
        None \<Rightarrow> (Inl (KeyError ''end_date''), df)
      | Some end_col \<Rightarrow>
     (case normalize_dates pd start_col df of
        Inl e \<Rightarrow> (Inl e, df)
      | Inr df1 \<Rightarrow>
     (case normalize_dates pd end_col df1 of
        Inl e \<Rightarrow> (Inl e, df1)
      | Inr df2 \<Rightarrow>
          (layout pd df2 task_col start_col end_col (cols Phase) (cols Duration)
             custom_colors background_color grid_color, df2))))))"

definition plan_bars ::
  "pandas \<Rightarrow> dataframe \<Rightarrow> string \<Rightarrow> string \<Rightarrow> string \<Rightarrow> string option \<Rightarrow> string option
    \<Rightarrow> (cell \<times> color) list \<Rightarrow> bar list" where
  "plan_bars pd df task_col start_col end_col phase_col duration_col color_map =
     (let rs = sort_values pd (date_key start_col) (rows df)
      in map (make_bar (length rs) task_col start_col end_col phase_col duration_col
               (in_columns phase_col df) (in_columns duration_col df) color_map)
             (enumerate 0 rs))"

definition unchanged_outside :: "string set \<Rightarrow> dataframe \<Rightarrow> dataframe \<Rightarrow> bool" where
  "unchanged_outside S df df' \<longleftrightarrow>
     columns df' = columns df \<and> length (rows df') = length (rows df) \<and>
     (\<forall>c. c \<notin> S \<longrightarrow> dtypes df' c = dtypes df c \<and> map (\<lambda>r. r c) (rows df') = map (\<lambda>r. r c) (rows df))"

definition rows_by_start :: "pandas \<Rightarrow> dataframe \<Rightarrow> string \<Rightarrow> (string \<Rightarrow> cell) list" where
  "rows_by_start pd df start_col = sort_values pd (date_key start_col) (rows df)"

text \<open>Example inputs: a parser for two date strings, a sorting routine, and small tables.\<close>

definition example_parse :: "string \<Rightarrow> timestamp option" where
  "example_parse = map_of
     [(''2025-01-01'', \<lparr>year = 2025, month = 1, day = 1, nanos = 0\<rparr>),
      (''2025-01-10'', \<lparr>year = 2025, month = 1, day = 10, nanos = 0\<rparr>)]"

definition pandas_stable :: pandas where
  "pandas_stable = \<lparr>sort_values = (\<lambda>key rs. sort_key key rs), parse_datetime = example_parse\<rparr>"

definition task_row :: "cell \<Rightarrow> cell \<Rightarrow> cell \<Rightarrow> string \<Rightarrow> cell" where
  "task_row t s e = (\<lambda>_. NaN)(''Task'' := t, ''Start'' := s, ''End'' := e)"

definition date_table :: "(string \<Rightarrow> cell) list \<Rightarrow> dataframe" where
  "date_table rs =
     \<lparr>columns = [''Task'', ''Start'', ''End''],
      dtypes = (\<lambda>_. Object_dtype)(''Start'' := Datetime64, ''End'' := Datetime64),
      rows = rs\<rparr>"

definition plain_mapping :: "role \<rightharpoonup> string" where
  "plain_mapping = [Task \<mapsto> ''Task'', Start_date \<mapsto> ''Start'', End_date \<mapsto> ''End'']"

definition two_tasks :: dataframe where
  "two_tasks = date_table
     [task_row (Text ''A'') (Date \<lparr>year = 2025, month = 3, day = 1, nanos = 0\<rparr>)
                            (Date \<lparr>year = 2025, month = 3, day = 10, nanos = 0\<rparr>),
      task_row (Text ''B'') (Date \<lparr>year = 2025, month = 2, day = 1, nanos = 0\<rparr>)
                            (Date \<lparr>year = 2025, month = 2, day = 5, nanos = 0\<rparr>)]"

definition backwards_task :: dataframe where
  "backwards_task = date_table
     [task_row (Text ''A'') (Date \<lparr>year = 2025, month = 1, day = 10, nanos = 0\<rparr>)
                            (Date \<lparr>year = 2025, month = 1, day = 1, nanos = 0\<rparr>)]"



definition no_tasks :: dataframe where
  "no_tasks = \<lparr>columns = [''Task'', ''Start'', ''End''], dtypes = (\<lambda>_. Object_dtype), rows = []\<rparr>"

definition phase_row :: "cell \<Rightarrow> cell \<Rightarrow> cell \<Rightarrow> cell \<Rightarrow> string \<Rightarrow> cell" where
  "phase_row t s e p = (task_row t s e)(''Phase'' := p)"

definition phase_table :: "(string \<Rightarrow> cell) list \<Rightarrow> dataframe" where
  "phase_table rs =
     \<lparr>columns = [''Task'', ''Start'', ''End'', ''Phase''],
      dtypes = (\<lambda>_. Object_dtype)(''Start'' := Datetime64, ''End'' := Datetime64),
      rows = rs\<rparr>"

definition phase_mapping :: "role \<rightharpoonup> string" where
  "phase_mapping = plain_mapping(Phase \<mapsto> ''Phase'')"

definition blank_phase :: dataframe where
  "blank_phase = phase_table
     [phase_row (Text ''A'') (Date \<lparr>year = 2025, month = 1, day = 1, nanos = 0\<rparr>)
                             (Date \<lparr>year = 2025, month = 1, day = 10, nanos = 0\<rparr>) (Text ''Design''),
      phase_row (Text ''B'') (Date \<lparr>year = 2025, month = 1, day = 5, nanos = 0\<rparr>)
                             (Date \<lparr>year = 2025, month = 1, day = 20, nanos = 0\<rparr>) NaN]"

definition same_day_task :: dataframe where
  "same_day_task = date_table
     [task_row (Text ''A'') (Date \<lparr>year = 2025, month = 1, day = 1, nanos = 28800000000000\<rparr>)
                            (Date \<lparr>year = 2025, month = 1, day = 1, nanos = 72000000000000\<rparr>)]"









section \<open>Properties of schema resolution\<close>

lemma str_contains_iff: "str_contains s pat \<longleftrightarrow> sublist pat s"
  by (induction s) (auto simp: sublist_Cons_right)

lemma columns_lower_snoc:
  "columns_lower (cols @ [c]) = AList.update (lower c) c (columns_lower cols)"
  by (simp add: columns_lower_def)

lemma keys_columns_lower: "fst ` set (columns_lower cols) = lower ` set cols"
proof (induction cols rule: rev_induct)
  case Nil
  show ?case by (simp add: columns_lower_def)
next
  case (snoc c cols)
  have "fst ` set (columns_lower (cols @ [c])) = {lower c} \<union> fst ` set (columns_lower cols)"
    by (simp only: columns_lower_snoc dom_update)
  also have "\<dots> = {lower c} \<union> lower ` set cols"
    by (simp only: snoc.IH)
  also have "\<dots> = lower ` set (cols @ [c])"
    by auto
  finally show ?case .
qed

lemma distinct_columns_lower: "distinct (map fst (columns_lower cols))"
  by (induction cols rule: rev_induct)
     (simp_all add: columns_lower_def distinct_update)

lemma find_append:
  "find P (xs @ ys) = (case find P xs of None \<Rightarrow> find P ys | Some x \<Rightarrow> Some x)"
  by (induction xs) auto

lemma find_SomeD: "find P xs = Some x \<Longrightarrow> P x"
  by (induction xs) (auto split: if_splits)

lemma find_Some_mem: "find P xs = Some x \<Longrightarrow> x \<in> set xs"
  by (induction xs) (auto split: if_splits)

lemma find_keys_columns_lower:
  "find P (map fst (columns_lower cols)) = find P (map lower cols)"
proof (induction cols rule: rev_induct)
  case Nil
  show ?case by (simp add: columns_lower_def)
next
  case (snoc c cols)
  let ?d = "columns_lower cols"
  show ?case
  proof (cases "lower c \<in> set (map fst ?d)")
    case True
    then have in_cols: "lower c \<in> lower ` set cols"
      using keys_columns_lower [of cols] by simp
    have "find P (map fst (AList.update (lower c) c ?d)) = find P (map fst ?d)"
      using True by (simp only: update_keys if_True)
    also have "\<dots> = find P (map lower cols)" by (rule snoc.IH)
    also have "\<dots> = find P (map lower (cols @ [c]))"
    proof (cases "find P (map lower cols)")
      case None
      then have "\<not> P (lower c)" using in_cols by (auto simp: find_None_iff)
      with None show ?thesis by (simp add: find_append)
    next
      case (Some k)
      then show ?thesis by (simp add: find_append)
    qed
    finally show ?thesis by (simp only: columns_lower_snoc)
  next
    case False
    then have "find P (map fst (AList.update (lower c) c ?d)) = find P (map fst ?d @ [lower c])"
      by (simp only: update_keys if_False)
    then show ?thesis
      using snoc.IH by (simp add: columns_lower_snoc find_append)
  qed
qed

lemma map_of_columns_lower:
  "map_of (columns_lower cols) k =
     (if k \<in> lower ` set cols then Some (last (filter (\<lambda>c. lower c = k) cols)) else None)"
proof (induction cols rule: rev_induct)
  case Nil
  show ?case by (simp add: columns_lower_def)
next
  case (snoc c cols)
  show ?case
  proof (cases "lower c = k")
    case True
    then show ?thesis by (simp add: columns_lower_snoc update_conv')
  next
    case False
    then show ?thesis using snoc.IH by (simp add: columns_lower_snoc update_conv' image_iff)
  qed
qed

lemma first_match_map_of:
  "first_match pat d =
     (case find (\<lambda>k. str_contains k pat) (map fst d) of None \<Rightarrow> None | Some k \<Rightarrow> map_of d k)"
proof (induction d)
  case Nil
  show ?case by simp
next
  case (Cons kv d)
  obtain k v where kv: "kv = (k, v)" by (cases kv)
  show ?case
  proof (cases "str_contains k pat")
    case True
    then show ?thesis by (simp add: kv)
  next
    case False
    then show ?thesis
      using Cons.IH by (auto simp: kv split: option.splits dest: find_SomeD)
  qed
qed

lemma find_map_lower:
  "find P (map lower cols) = map_option lower (find (\<lambda>c. P (lower c)) cols)"
  by (induction cols) auto

lemma matches_fun: "matches pat = (\<lambda>c. str_contains (lower c) pat)"
  by (simp add: fun_eq_iff matches_def)

lemma first_match_columns_lower:
  "first_match pat (columns_lower cols) =
     map_option (last_same_lower cols) (find (matches pat) cols)"
proof (cases "find (matches pat) cols")
  case None
  then show ?thesis
    by (simp add: first_match_map_of find_keys_columns_lower find_map_lower matches_fun)
next
  case (Some c)
  then have "c \<in> set cols" by (rule find_Some_mem)
  with Some show ?thesis
    by (simp add: first_match_map_of find_keys_columns_lower find_map_lower matches_fun
        map_of_columns_lower last_same_lower_def)
qed

lemma try_patterns_fresh:
  "m key = None \<Longrightarrow>
   try_patterns key pats d m =
     (case match_patterns pats d of None \<Rightarrow> m | Some col \<Rightarrow> m(key \<mapsto> col))"
  by (induction pats) (auto split: option.splits)

lemma find_columns_distinct:
  "distinct (map fst ps) \<Longrightarrow> (\<forall>k \<in> fst ` set ps. m k = None) \<Longrightarrow>
   find_columns ps d m r =
     (case map_of ps r of None \<Rightarrow> m r | Some pats \<Rightarrow> match_patterns pats d)"
proof (induction ps arbitrary: m)
  case Nil
  show ?case by simp
next
  case (Cons kp ps)
  obtain key pats where kp: "kp = (key, pats)" by (cases kp)
  let ?m' = "try_patterns key pats d m"
  have fresh: "m key = None" using Cons.prems(2) by (simp add: kp)
  have m': "?m' = (case match_patterns pats d of None \<Rightarrow> m | Some col \<Rightarrow> m(key \<mapsto> col))"
    using fresh by (rule try_patterns_fresh)
  have notin: "key \<notin> fst ` set ps" using Cons.prems(1) by (simp add: kp)
  have rest: "\<forall>k \<in> fst ` set ps. ?m' k = None"
    using Cons.prems(2) notin by (auto simp: m' kp split: option.splits)
  have IH: "find_columns ps d ?m' r =
      (case map_of ps r of None \<Rightarrow> ?m' r | Some pats \<Rightarrow> match_patterns pats d)"
    using Cons.prems(1) rest by (intro Cons.IH) (simp_all add: kp)
  have step: "find_columns (kp # ps) d m r = find_columns ps d ?m' r"
    by (simp add: kp)
  show ?case
  proof (cases "r = key")
    case True
    then have none: "map_of ps r = None" using notin by (simp add: map_of_eq_None_iff)
    have "find_columns ps d ?m' r = ?m' r"
      using IH none by simp
    also have "\<dots> = match_patterns pats d"
      using True fresh by (simp add: m' split: option.splits)
    finally show ?thesis
      using True by (simp only: step) (simp add: kp)
  next
    case False
    have "?m' r = m r"
      using False by (simp add: m' split: option.splits)
    then have "find_columns ps d ?m' r =
        (case map_of ps r of None \<Rightarrow> m r | Some pats \<Rightarrow> match_patterns pats d)"
      using IH by (simp split: option.splits)
    then show ?thesis
      using False by (simp only: step) (simp add: kp)
  qed
qed


lemma first_match_None_iff:
  "first_match pat (columns_lower cols) = None \<longleftrightarrow> \<not> (\<exists>col \<in> set cols. matches pat col)"
  by (auto simp: first_match_columns_lower find_None_iff)

lemma match_patterns_columns_lower:
  "match_patterns pats (columns_lower cols) =
     map_option (last_same_lower cols) (first_column pats cols)"
proof (induction pats)
  case Nil
  show ?case by (simp add: first_column_def)
next
  case (Cons pat pats)
  show ?case
  proof (cases "\<exists>col \<in> set cols. matches pat col")
    case True
    then have "first_match pat (columns_lower cols) \<noteq> None"
      by (simp add: first_match_None_iff)
    then show ?thesis
      using True by (auto simp: first_column_def first_match_columns_lower)
  next
    case False
    then have "first_match pat (columns_lower cols) = None"
      by (simp add: first_match_None_iff)
    moreover have "first_column (pat # pats) cols = first_column pats cols"
      using False by (simp add: first_column_def)
    ultimately show ?thesis using Cons.IH by simp
  qed
qed

lemma column_mapping_role:
  "column_mapping cols r = match_patterns (patterns_of r) (columns_lower cols)"
proof -
  have d: "distinct (map fst patterns)" by (simp add: patterns_def)
  have "column_mapping cols r =
      (case map_of patterns r of None \<Rightarrow> Map.empty r
       | Some pats \<Rightarrow> match_patterns pats (columns_lower cols))"
    unfolding column_mapping_def by (rule find_columns_distinct [OF d]) simp
  then show ?thesis by (simp add: patterns_of_def split: option.splits)
qed

lemma column_mapping_first_column:
  "column_mapping cols r = map_option (last_same_lower cols) (first_column (patterns_of r) cols)"
  by (simp add: column_mapping_role match_patterns_columns_lower)

lemma first_column_mem: "first_column pats cols = Some c \<Longrightarrow> c \<in> set cols"
  by (auto simp: first_column_def split: list.splits dest: find_Some_mem)

lemma first_column_None_iff:
  "first_column pats cols = None \<longleftrightarrow> \<not> (\<exists>pat \<in> set pats. \<exists>col \<in> set cols. matches pat col)"
proof (induction pats)
  case Nil
  show ?case by (simp add: first_column_def)
next
  case (Cons pat pats)
  show ?case
  proof (cases "\<exists>col \<in> set cols. matches pat col")
    case True
    then show ?thesis by (auto simp: first_column_def find_None_iff)
  next
    case False
    then have "first_column (pat # pats) cols = first_column pats cols"
      by (simp add: first_column_def)
    then show ?thesis using Cons.IH False by simp
  qed
qed

lemma column_mapping_None_iff: "column_mapping cols r = None \<longleftrightarrow> unmatched cols r"
  by (simp add: column_mapping_first_column first_column_None_iff unmatched_def)

lemma filter_same_key_distinct:
  "distinct (map f xs) \<Longrightarrow> x \<in> set xs \<Longrightarrow> filter (\<lambda>y. f y = f x) xs = [x]"
proof (induction xs)
  case Nil
  then show ?case by simp
next
  case (Cons a xs)
  show ?case
  proof (cases "a = x")
    case True
    have "filter (\<lambda>y. f y = f x) xs = []"
      using Cons.prems(1) True by (force simp: filter_empty_conv image_iff)
    then show ?thesis using True by simp
  next
    case False
    then have "x \<in> set xs" using Cons.prems(2) by simp
    moreover have "f a \<noteq> f x" using Cons.prems(1) \<open>x \<in> set xs\<close> by auto
    ultimately show ?thesis using Cons by simp
  qed
qed

lemma last_same_lower_distinct:
  "distinct (map lower cols) \<Longrightarrow> c \<in> set cols \<Longrightarrow> last_same_lower cols c = c"
  by (simp add: last_same_lower_def filter_same_key_distinct)

lemma last_same_lower_props:
  assumes "c \<in> set cols"
  shows "last_same_lower cols c \<in> set cols"
    and "lower (last_same_lower cols c) = lower c"
proof -
  let ?xs = "filter (\<lambda>y. lower y = lower c) cols"
  have ne: "?xs \<noteq> []" using assms by (auto simp: filter_empty_conv)
  then have "last ?xs \<in> set ?xs" by (rule last_in_set)
  then show "last_same_lower cols c \<in> set cols"
    and "lower (last_same_lower cols c) = lower c"
    by (simp_all add: last_same_lower_def)
qed

lemma last_same_lower_idem:
  "c \<in> set cols \<Longrightarrow> last_same_lower cols (last_same_lower cols c) = last_same_lower cols c"
  using last_same_lower_props(2) [of c cols] by (simp add: last_same_lower_def)


lemmas eval_defs = column_mapping_def detect_columns_def patterns_def columns_lower_def
  lower_def lower_char_def required_cols_def first_column_def matches_def patterns_of_def
  last_same_lower_def unmatched_def

subsection \<open>Priority order and first match\<close>

text \<open>
  C1 (as amended). For every role the patterns are tried in priority order, and the first
  pattern that some column matches decides; the role is mapped to the last column that
  has the same lower-cased name as the first column (in table order) matching that
  pattern. When no two columns share a lower-cased name this is that first column itself.
  A successful resolution returns exactly this mapping. For the columns
  \<open>Task Name\<close>, \<open>Begin\<close>, \<open>Finish\<close> the result maps task, start date and end date to them.
\<close>

theorem detect_columns_priority_first_match:
  "column_mapping cols r = map_option (last_same_lower cols) (first_column (patterns_of r) cols)
   \<and> (distinct (map lower cols) \<longrightarrow> column_mapping cols r = first_column (patterns_of r) cols)
   \<and> (detect_columns cols = Inr m \<longrightarrow> m = column_mapping cols)
   \<and> detect_columns [''Task Name'', ''Begin'', ''Finish'']
       = Inr (column_mapping [''Task Name'', ''Begin'', ''Finish''])
   \<and> column_mapping [''Task Name'', ''Begin'', ''Finish''] Task = Some ''Task Name''
   \<and> column_mapping [''Task Name'', ''Begin'', ''Finish''] Start_date = Some ''Begin''
   \<and> column_mapping [''Task Name'', ''Begin'', ''Finish''] End_date = Some ''Finish''"
proof (intro conjI impI)
  show general: "column_mapping cols r
      = map_option (last_same_lower cols) (first_column (patterns_of r) cols)"
    by (rule column_mapping_first_column)
  show "column_mapping cols r = first_column (patterns_of r) cols"
    if d: "distinct (map lower cols)"
  proof (cases "first_column (patterns_of r) cols")
    case None
    then show ?thesis by (simp add: general)
  next
    case (Some c)
    then have "c \<in> set cols" by (rule first_column_mem)
    then show ?thesis using Some d by (simp add: general last_same_lower_distinct)
  qed
  show "m = column_mapping cols" if "detect_columns cols = Inr m"
    using that by (simp add: detect_columns_def Let_def split: if_splits)
  show "detect_columns [''Task Name'', ''Begin'', ''Finish'']
       = Inr (column_mapping [''Task Name'', ''Begin'', ''Finish''])"
    by (simp add: eval_defs)
  show "column_mapping [''Task Name'', ''Begin'', ''Finish''] Task = Some ''Task Name''"
    by (simp add: eval_defs)
  show "column_mapping [''Task Name'', ''Begin'', ''Finish''] Start_date = Some ''Begin''"
    by (simp add: eval_defs)
  show "column_mapping [''Task Name'', ''Begin'', ''Finish''] End_date = Some ''Finish''"
    by (simp add: eval_defs)
qed

theorem detect_columns_priority_first_match_witness:
  "distinct (map lower [''Task Name'', ''Begin'', ''Finish''])
   \<and> detect_columns [''Task Name'', ''Begin'', ''Finish'']
       = Inr (column_mapping [''Task Name'', ''Begin'', ''Finish''])
   \<and> column_mapping [''Task Name'', ''Begin'', ''Finish''] Task
       = first_column (patterns_of Task) [''Task Name'', ''Begin'', ''Finish'']
   \<and> first_column (patterns_of Task) [''Task Name'', ''Begin'', ''Finish''] = Some ''Task Name''"
proof -
  have d: "distinct (map lower [''Task Name'', ''Begin'', ''Finish''])"
    by (simp add: lower_def lower_char_def)
  have f: "first_column (patterns_of Task) [''Task Name'', ''Begin'', ''Finish''] = Some ''Task Name''"
    by (simp add: eval_defs)
  show ?thesis
    using d f
      detect_columns_priority_first_match [of "[''Task Name'', ''Begin'', ''Finish'']" Task
        "column_mapping [''Task Name'', ''Begin'', ''Finish'']"]
    by blast
qed

text \<open>
  The claim as first stated, that the role goes to the first column in table order whose
  lower-cased name contains the pattern, fails when two columns differ only in case:
  the first column containing \<open>task\<close> is \<open>Task\<close>, but the role receives \<open>TASK\<close>.
\<close>

theorem detect_columns_first_column_counterexample:
  "detect_columns [''Task'', ''TASK'', ''Start'', ''End'']
     = Inr (column_mapping [''Task'', ''TASK'', ''Start'', ''End''])
   \<and> first_column (patterns_of Task) [''Task'', ''TASK'', ''Start'', ''End''] = Some ''Task''
   \<and> column_mapping [''Task'', ''TASK'', ''Start'', ''End''] Task = Some ''TASK''"
  by (simp add: eval_defs)

subsection \<open>Missing mandatory roles\<close>

text \<open>
  C4. Resolution fails exactly when some mandatory role (task, start date, end date) has
  no column containing any of its patterns, and the error then carries every such role at
  once, in the order task, start date, end date. For no columns at all the error lists
  all three.
\<close>

theorem detect_columns_missing_roles:
  "detect_columns cols =
     (if \<exists>r \<in> set required_cols. unmatched cols r
      then Inl (ValueError_required_columns (filter (unmatched cols) required_cols))
      else Inr (column_mapping cols))
   \<and> required_cols = [Task, Start_date, End_date]
   \<and> detect_columns [] = Inl (ValueError_required_columns [Task, Start_date, End_date])"
proof (intro conjI)
  have "filter (\<lambda>col. column_mapping cols col = None) required_cols
      = filter (unmatched cols) required_cols"
    by (simp add: column_mapping_None_iff)
  then show "detect_columns cols =
     (if \<exists>r \<in> set required_cols. unmatched cols r
      then Inl (ValueError_required_columns (filter (unmatched cols) required_cols))
      else Inr (column_mapping cols))"
    by (simp add: detect_columns_def Let_def filter_empty_conv)
  show "required_cols = [Task, Start_date, End_date]"
    by (simp add: required_cols_def)
  show "detect_columns [] = Inl (ValueError_required_columns [Task, Start_date, End_date])"
    by (simp add: eval_defs)
qed

theorem detect_columns_missing_roles_witness:
  "(\<exists>r \<in> set required_cols. unmatched [''phase'', ''notes''] r)
   \<and> filter (unmatched [''phase'', ''notes'']) required_cols = [Task, Start_date, End_date]
   \<and> detect_columns [''phase'', ''notes'']
       = Inl (ValueError_required_columns [Task, Start_date, End_date])
   \<and> detect_columns [''phase'', ''start'', ''end''] = Inl (ValueError_required_columns [Task])"
proof -
  have u: "filter (unmatched [''phase'', ''notes'']) required_cols = [Task, Start_date, End_date]"
    by (simp add: eval_defs)
  have v: "filter (unmatched [''phase'', ''start'', ''end'']) required_cols = [Task]"
    by (simp add: eval_defs)
  have "Task \<in> set (filter (unmatched [''phase'', ''notes'']) required_cols)"
    by (simp only: u) simp
  then have e: "\<exists>r \<in> set required_cols. unmatched [''phase'', ''notes''] r"
    by auto
  have "Task \<in> set (filter (unmatched [''phase'', ''start'', ''end'']) required_cols)"
    by (simp only: v) simp
  then have e': "\<exists>r \<in> set required_cols. unmatched [''phase'', ''start'', ''end''] r"
    by auto
  show ?thesis
    using u v e e'
      detect_columns_missing_roles [of "[''phase'', ''notes'']"]
      detect_columns_missing_roles [of "[''phase'', ''start'', ''end'']"]
    by simp
qed

subsection \<open>Roles are resolved independently\<close>

text \<open>
  C5 (as amended). Each role is resolved from its own patterns and the columns alone; the
  columns already given to other roles are not excluded. When the first match of two
  roles is the same column, both roles receive it.
\<close>

theorem column_mapping_roles_independent:
  "column_mapping cols r = match_patterns (patterns_of r) (columns_lower cols)
   \<and> (first_column (patterns_of r1) cols = Some c \<and> first_column (patterns_of r2) cols = Some c
        \<longrightarrow> column_mapping cols r1 = Some (last_same_lower cols c)
          \<and> column_mapping cols r2 = Some (last_same_lower cols c))"
  by (simp add: column_mapping_first_column column_mapping_role [symmetric])

theorem column_mapping_roles_independent_witness:
  "first_column (patterns_of Task) [''Task Duration'', ''Start'', ''End''] = Some ''Task Duration''
   \<and> first_column (patterns_of Duration) [''Task Duration'', ''Start'', ''End''] = Some ''Task Duration''
   \<and> column_mapping [''Task Duration'', ''Start'', ''End''] Task
       = Some (last_same_lower [''Task Duration'', ''Start'', ''End''] ''Task Duration'')
   \<and> column_mapping [''Task Duration'', ''Start'', ''End''] Duration
       = Some (last_same_lower [''Task Duration'', ''Start'', ''End''] ''Task Duration'')"
proof -
  have a: "first_column (patterns_of Task) [''Task Duration'', ''Start'', ''End''] = Some ''Task Duration''"
    by (simp add: eval_defs)
  have b: "first_column (patterns_of Duration) [''Task Duration'', ''Start'', ''End''] = Some ''Task Duration''"
    by (simp add: eval_defs)
  show ?thesis
    using a b
      column_mapping_roles_independent
        [of "[''Task Duration'', ''Start'', ''End'']" Task Task "''Task Duration''" Duration]
    by blast
qed

text \<open>
  The claim as first stated, that one column goes to at most one role, fails: the column
  \<open>Task Duration\<close> is given to the task role and to the duration role in one successful
  pass.
\<close>

theorem detect_columns_not_injective_counterexample:
  "detect_columns [''Task Duration'', ''Start'', ''End'']
     = Inr (column_mapping [''Task Duration'', ''Start'', ''End''])
   \<and> column_mapping [''Task Duration'', ''Start'', ''End''] Task = Some ''Task Duration''
   \<and> column_mapping [''Task Duration'', ''Start'', ''End''] Duration = Some ''Task Duration''
   \<and> \<not> inj_on (column_mapping [''Task Duration'', ''Start'', ''End''])
         (dom (column_mapping [''Task Duration'', ''Start'', ''End'']))"
proof -
  let ?cols = "[''Task Duration'', ''Start'', ''End'']"
  have d: "detect_columns ?cols = Inr (column_mapping ?cols)"
    by (simp add: eval_defs)
  have t: "column_mapping ?cols Task = Some ''Task Duration''"
    by (simp add: eval_defs)
  have u: "column_mapping ?cols Duration = Some ''Task Duration''"
    by (simp add: eval_defs)
  have "\<not> inj_on (column_mapping ?cols) (dom (column_mapping ?cols))"
  proof
    assume "inj_on (column_mapping ?cols) (dom (column_mapping ?cols))"
    moreover have "column_mapping ?cols Task = column_mapping ?cols Duration"
      using t u by simp
    moreover have "Task \<in> dom (column_mapping ?cols)" "Duration \<in> dom (column_mapping ?cols)"
      using t u by (simp_all add: dom_def)
    ultimately have "Task = Duration" by (rule inj_onD)
    then show False by simp
  qed
  with d t u show ?thesis by simp
qed

subsection \<open>Columns that differ only in case\<close>

text \<open>
  C10. The dictionary of lower-cased names has one entry for each lower-cased name, and
  its value is the last column in table order with that lower-cased name. So a role is
  only ever mapped to a column that is the last one of its lower-cased name, and a column
  whose spelling differs from that last one is never selected for any role.
\<close>

theorem columns_lower_keeps_last:
  "distinct (map fst (columns_lower cols))
   \<and> (c \<in> set cols \<longrightarrow> map_of (columns_lower cols) (lower c) = Some (last_same_lower cols c))
   \<and> (column_mapping cols r = Some c' \<longrightarrow> c' \<in> set cols \<and> last_same_lower cols c' = c')
   \<and> (c \<in> set cols \<and> last_same_lower cols c \<noteq> c \<longrightarrow> column_mapping cols r \<noteq> Some c)"
proof -
  have sel: "c' \<in> set cols \<and> last_same_lower cols c' = c'"
    if "column_mapping cols r = Some c'" for c'
  proof -
    from that obtain c0 where c0: "first_column (patterns_of r) cols = Some c0"
      and c': "c' = last_same_lower cols c0"
      by (auto simp: column_mapping_first_column)
    from c0 have "c0 \<in> set cols" by (rule first_column_mem)
    then show ?thesis
      using c' by (simp add: last_same_lower_props(1) last_same_lower_idem)
  qed
  have "map_of (columns_lower cols) (lower c) = Some (last_same_lower cols c)" if "c \<in> set cols"
    using that by (simp add: map_of_columns_lower last_same_lower_def)
  moreover have "column_mapping cols r \<noteq> Some c" if "last_same_lower cols c \<noteq> c"
    using that sel [of c] by blast
  ultimately show ?thesis
    using sel [of c'] by (simp add: distinct_columns_lower)
qed

theorem columns_lower_keeps_last_witness:
  "''Name'' \<in> set [''Name'', ''NAME'', ''Start'', ''End'']
   \<and> last_same_lower [''Name'', ''NAME'', ''Start'', ''End''] ''Name'' = ''NAME''
   \<and> column_mapping [''Name'', ''NAME'', ''Start'', ''End''] Task = Some ''NAME''
   \<and> column_mapping [''Name'', ''NAME'', ''Start'', ''End''] Task \<noteq> Some ''Name''
   \<and> map_of (columns_lower [''Name'', ''NAME'', ''Start'', ''End'']) (lower ''Name'') = Some ''NAME''"
proof -
  let ?cols = "[''Name'', ''NAME'', ''Start'', ''End'']"
  have m: "''Name'' \<in> set ?cols" by simp
  have l: "last_same_lower ?cols ''Name'' = ''NAME''" by (simp add: eval_defs)
  have t: "column_mapping ?cols Task = Some ''NAME''" by (simp add: eval_defs)
  show ?thesis
    using m l t columns_lower_keeps_last [of ?cols "''Name''" Task "''NAME''"]
    by simp
qed

lemma create_gantt_chart_Inr:
  assumes "create_gantt_chart pd df cols cc bg grid = (Inr ch, df')"
  obtains task_col start_col end_col df1 where
    "cols Task = Some task_col" "cols Start_date = Some start_col" "cols End_date = Some end_col"
    "normalize_dates pd start_col df = Inr df1" "normalize_dates pd end_col df1 = Inr df'"
    "layout pd df' task_col start_col end_col (cols Phase) (cols Duration) cc bg grid = Inr ch"
  using assms unfolding create_gantt_chart_def
  by (auto split: option.splits sum.splits)

lemma layout_Inr:
  assumes "layout pd df task_col start_col end_col phase_col duration_col cc bg grid = Inr ch"
  obtains phases start_d end_d where
    "(if in_columns phase_col df
      then py_sorted (unique (map (\<lambda>r. r (the phase_col))
             (sort_values pd (date_key start_col) (rows df))))
      else Inr []) = Inr phases"
    "legend ch = (if in_columns phase_col df then build_color_map cc phases else [])"
    "bars ch = plan_bars pd df task_col start_col end_col phase_col duration_col (legend ch)"
    "y_ticks ch = map y_pos (bars ch)" "y_ticklabels ch = map task (bars ch)"
    "series_min (map (\<lambda>r. cell_date (r start_col))
        (sort_values pd (date_key start_col) (rows df))) = Some start_d"
    "series_max (map (\<lambda>r. cell_date (r end_col))
        (sort_values pd (date_key start_col) (rows df))) = Some end_d"
    "week_lines ch = map (\<lambda>p. \<lparr>position = p, line_color = grid, linestyle = ''--'', alpha = 3 / 10\<rparr>)
        (date_range_W start_d end_d)"
    "month_lines ch = map (\<lambda>p. \<lparr>position = p, line_color = grid, linestyle = ''-'', alpha = 2 / 10\<rparr>)
        (date_range_MS start_d end_d)"
    "facecolor ch = bg"
  using assms unfolding layout_def plan_bars_def Let_def
  by (auto split: sum.splits if_splits option.splits prod.splits)

lemma unchanged_outside_refl: "unchanged_outside S df df"
  by (simp add: unchanged_outside_def)

lemma unchanged_outside_trans:
  "unchanged_outside S df df1 \<Longrightarrow> unchanged_outside T df1 df2 \<Longrightarrow> unchanged_outside (S \<union> T) df df2"
  by (simp add: unchanged_outside_def)

lemma to_datetime_cell_is_date: "to_datetime_cell pd c = Inr c' \<Longrightarrow> is_date c'"
  by (cases c) (auto simp: is_date_def split: option.splits)

lemma to_datetime_Inr:
  "to_datetime pd col rs = Inr rs' \<Longrightarrow>
   length rs' = length rs \<and> (\<forall>r \<in> set rs'. is_date (r col)) \<and>
   (\<forall>c. c \<noteq> col \<longrightarrow> map (\<lambda>r. r c) rs' = map (\<lambda>r. r c) rs)"
proof (induction rs arbitrary: rs')
  case Nil
  then show ?case by simp
next
  case (Cons r rs)
  from Cons.prems obtain c rs0 where c: "to_datetime_cell pd (r col) = Inr c"
    and rs0: "to_datetime pd col rs = Inr rs0" and rs': "rs' = r(col := c) # rs0"
    by (auto split: sum.splits)
  from Cons.IH [OF rs0] show ?case
    using c by (simp add: rs' to_datetime_cell_is_date)
qed

lemma normalize_dates_Inr:
  assumes "normalize_dates pd col df = Inr df'"
  shows "unchanged_outside {col} df df'"
    and "\<forall>r \<in> set (rows df'). is_date (r col)"
    and "col \<in> set (columns df)"
    and "dtypes df col = Datetime64 \<Longrightarrow> df' = df"
proof -
  have col: "col \<in> set (columns df)"
    using assms by (auto simp: normalize_dates_def split: if_splits)
  show "col \<in> set (columns df)" by (rule col)
  show "df' = df" if "dtypes df col = Datetime64"
    using assms that col by (auto simp: normalize_dates_def split: if_splits)
  show "unchanged_outside {col} df df'" "\<forall>r \<in> set (rows df'). is_date (r col)"
  proof -
    consider (dt) "dtypes df col = Datetime64" | (conv) "dtypes df col \<noteq> Datetime64" by blast
    then have "unchanged_outside {col} df df' \<and> (\<forall>r \<in> set (rows df'). is_date (r col))"
    proof cases
      case dt
      then show ?thesis
        using assms col by (auto simp: normalize_dates_def unchanged_outside_def split: if_splits)
    next
      case conv
      then obtain rs where rs: "to_datetime pd col (rows df) = Inr rs"
        and df': "df' = df\<lparr>dtypes := (dtypes df)(col := Datetime64), rows := rs\<rparr>"
        using assms col by (auto simp: normalize_dates_def split: if_splits sum.splits)
      from to_datetime_Inr [OF rs] show ?thesis
        by (simp add: df' unchanged_outside_def)
    qed
    then show "unchanged_outside {col} df df'" "\<forall>r \<in> set (rows df'). is_date (r col)"
      by blast+
  qed
qed

lemma sorts_ascendingD:
  assumes "sorts_ascending pd"
  shows "mset (rows_by_start pd df sc) = mset (rows df)"
    and "sorted (map (date_key sc) (rows_by_start pd df sc))"
    and "length (rows_by_start pd df sc) = length (rows df)"
    and "set (rows_by_start pd df sc) = set (rows df)"
proof -
  show m: "mset (rows_by_start pd df sc) = mset (rows df)"
    using assms by (simp add: sorts_ascending_def rows_by_start_def)
  show "sorted (map (date_key sc) (rows_by_start pd df sc))"
    using assms by (simp add: sorts_ascending_def rows_by_start_def)
  show "length (rows_by_start pd df sc) = length (rows df)"
    using m by (rule mset_eq_length)
  show "set (rows_by_start pd df sc) = set (rows df)"
    using m by (rule mset_eq_setD)
qed

lemma duration_days_max:
  "duration_days s e = max 1 ((stamp_value e - stamp_value s) div ns_per_day)"
  by (simp add: duration_days_def Let_def)

lemma plan_bars_length:
  "length (plan_bars pd df tc sc ec pc dc cm) = length (rows_by_start pd df sc)"
  by (simp add: plan_bars_def rows_by_start_def Let_def)

lemma plan_bars_nth:
  assumes "i < length (rows_by_start pd df sc)"
  shows "plan_bars pd df tc sc ec pc dc cm ! i =
    make_bar (length (rows_by_start pd df sc)) tc sc ec pc dc
      (in_columns pc df) (in_columns dc df) cm (i, rows_by_start pd df sc ! i)"
  using assms by (simp add: plan_bars_def rows_by_start_def Let_def nth_enumerate_eq)

lemma make_bar_sel:
  "y_pos (make_bar n tc sc ec pc dc hp hdur cm (i, r)) = int n - 1 - int i"
  "task (make_bar n tc sc ec pc dc hp hdur cm (i, r)) = r tc"
  "left (make_bar n tc sc ec pc dc hp hdur cm (i, r)) = cell_date (r sc)"
  "width (make_bar n tc sc ec pc dc hp hdur cm (i, r))
     = duration_days (cell_date (r sc)) (cell_date (r ec))"
  "color (make_bar n tc sc ec pc dc hp hdur cm (i, r))
     = (if hp then (case map_of cm (r (the pc)) of Some c \<Rightarrow> c | None \<Rightarrow> Named ''blue'')
        else Named ''steelblue'')"
  by (simp_all add: make_bar_def Let_def)

lemma series_min_Some_nonempty: "series_min ds = Some m \<Longrightarrow> ds \<noteq> []"
  by (auto simp: series_min_def)

text \<open>What a successful call has computed, in one place.\<close>

lemma create_gantt_chart_success:
  assumes ok: "create_gantt_chart pd df cols cc bg grid = (Inr ch, df')"
    and t: "cols Task = Some tc" and s: "cols Start_date = Some sc" and e: "cols End_date = Some ec"
  shows "layout pd df' tc sc ec (cols Phase) (cols Duration) cc bg grid = Inr ch"
    and "bars ch = plan_bars pd df' tc sc ec (cols Phase) (cols Duration) (legend ch)"
    and "rows_by_start pd df' sc \<noteq> []"
    and "\<forall>r \<in> set (rows df'). is_date (r sc) \<and> is_date (r ec)"
    and "unchanged_outside {sc, ec} df df'"
proof -
  from ok obtain task_col start_col end_col df1 where
    c: "cols Task = Some task_col" "cols Start_date = Some start_col" "cols End_date = Some end_col"
    and n1: "normalize_dates pd start_col df = Inr df1"
    and n2: "normalize_dates pd end_col df1 = Inr df'"
    and l: "layout pd df' task_col start_col end_col (cols Phase) (cols Duration) cc bg grid = Inr ch"
    by (rule create_gantt_chart_Inr)
  from c t s e have eq: "task_col = tc" "start_col = sc" "end_col = ec" by simp_all
  show lay: "layout pd df' tc sc ec (cols Phase) (cols Duration) cc bg grid = Inr ch"
    using l by (simp add: eq)
  from lay obtain phases start_d end_d where
    b: "bars ch = plan_bars pd df' tc sc ec (cols Phase) (cols Duration) (legend ch)"
    and m: "series_min (map (\<lambda>r. cell_date (r sc)) (sort_values pd (date_key sc) (rows df'))) = Some start_d"
    by (rule layout_Inr)
  show "bars ch = plan_bars pd df' tc sc ec (cols Phase) (cols Duration) (legend ch)" by (rule b)
  from series_min_Some_nonempty [OF m] show "rows_by_start pd df' sc \<noteq> []"
    by (simp add: rows_by_start_def)
  have u1: "unchanged_outside {sc} df df1" and d1: "\<forall>r \<in> set (rows df1). is_date (r sc)"
    using normalize_dates_Inr(1,2) [OF n1] by (simp_all add: eq)
  have u2: "unchanged_outside {ec} df1 df'" and d2: "\<forall>r \<in> set (rows df'). is_date (r ec)"
    using normalize_dates_Inr(1,2) [OF n2] by (simp_all add: eq)
  have "unchanged_outside ({sc} \<union> {ec}) df df'"
    using u1 u2 by (rule unchanged_outside_trans)
  then show "unchanged_outside {sc, ec} df df'" by (simp add: insert_commute)
  have "\<forall>r \<in> set (rows df'). is_date (r sc)"
  proof (cases "sc = ec")
    case True
    then show ?thesis using d2 by simp
  next
    case False
    then have "map (\<lambda>r. r sc) (rows df') = map (\<lambda>r. r sc) (rows df1)"
      using u2 by (simp add: unchanged_outside_def)
    then have "(\<lambda>r. r sc) ` set (rows df') = (\<lambda>r. r sc) ` set (rows df1)"
      by (metis set_map)
    then show ?thesis using d1 by (metis (no_types, lifting) image_iff)
  qed
  then show "\<forall>r \<in> set (rows df'). is_date (r sc) \<and> is_date (r ec)"
    using d2 by blast
qed

lemma sorts_ascending_stable: "sorts_ascending pandas_stable"
  by (simp add: sorts_ascending_def pandas_stable_def)

lemma sorted_pair_swap:
  assumes m: "mset rs = mset [a, b]" and s: "sorted (map k rs)" and lt: "k b < (k a :: int)"
  shows "rs = [b, a]"
proof -
  have "length rs = 2" using mset_eq_length [OF m] by simp
  then obtain x y where rs: "rs = [x, y]"
    by (cases rs; cases "tl rs") auto
  from m have "{#x, y#} = {#a, b#}" by (simp add: rs)
  then have "(x = a \<and> y = b) \<or> (x = b \<and> y = a)"
    by (auto simp: add_eq_conv_ex)
  moreover have "k x \<le> k y" using s by (simp add: rs)
  ultimately show ?thesis using lt by (auto simp: rs)
qed

lemmas layout_eval = create_gantt_chart_def normalize_dates_def is_date_def is_text_def
  layout_def in_columns_def date_key_def cell_date_def cell_text_def date2num_def stamp_value_def ns_per_day_def make_bar_def
  duration_days_def series_min_def series_max_def enumerate_eq_zip Let_def
  date_range_W_def date_range_MS_def weekday_def month_index_def month_start_def
  py_sorted_def unique_def build_color_map_def phase_color_def custom_get_def default_color_def
  task_row_def date_table_def plain_mapping_def pandas_stable_def
  example_parse_def

lemma to_datetime_cells:
  "to_datetime pd col rs = Inr rs' \<Longrightarrow> k < length rs \<Longrightarrow>
   to_datetime_cell pd ((rs ! k) col) = Inr ((rs' ! k) col)"
proof (induction rs arbitrary: rs' k)
  case Nil
  then show ?case by simp
next
  case (Cons r rs)
  from Cons.prems(1) obtain c rs0 where c: "to_datetime_cell pd (r col) = Inr c"
    and rs0: "to_datetime pd col rs = Inr rs0" and rs': "rs' = r(col := c) # rs0"
    by (auto split: sum.splits)
  show ?case
  proof (cases k)
    case 0
    then show ?thesis using c by (simp add: rs')
  next
    case (Suc j)
    then show ?thesis using Cons.IH [OF rs0, of j] Cons.prems(2) by (simp add: rs')
  qed
qed

lemma to_datetime_cell_date: "is_date c \<Longrightarrow> to_datetime_cell pd c = Inr c"
  by (cases c) (simp_all add: is_date_def)

lemma normalize_dates_cells:
  assumes "normalize_dates pd col df = Inr df'" and "k < length (rows df)"
  shows "to_datetime_cell pd ((rows df ! k) col) = Inr ((rows df' ! k) col)"
proof (cases "dtypes df col = Datetime64")
  case True
  then have "df' = df" and "\<forall>r \<in> set (rows df). is_date (r col)"
    using assms(1) by (auto simp: normalize_dates_def split: if_splits)
  then show ?thesis using assms(2) by (simp add: to_datetime_cell_date)
next
  case False
  then obtain rs where rs: "to_datetime pd col (rows df) = Inr rs"
    and df': "df' = df\<lparr>dtypes := (dtypes df)(col := Datetime64), rows := rs\<rparr>"
    using assms(1) by (auto simp: normalize_dates_def split: if_splits sum.splits)
  from to_datetime_cells [OF rs assms(2)] show ?thesis by (simp add: df')
qed

lemma unchanged_outside_nth:
  assumes "unchanged_outside S df df'" and "c \<notin> S" and "k < length (rows df)"
  shows "(rows df' ! k) c = (rows df ! k) c"
proof -
  have "map (\<lambda>r. r c) (rows df') = map (\<lambda>r. r c) (rows df)"
    and len: "length (rows df') = length (rows df)"
    using assms(1,2) by (simp_all add: unchanged_outside_def)
  then have "map (\<lambda>r. r c) (rows df') ! k = map (\<lambda>r. r c) (rows df) ! k" by simp
  then show ?thesis using assms(3) len by simp
qed

lemma create_gantt_chart_stored_dates:
  assumes ok: "create_gantt_chart pd df cols cc bg grid = (Inr ch, df')"
    and s: "cols Start_date = Some sc" and e: "cols End_date = Some ec"
    and k: "k < length (rows df)"
  shows "to_datetime_cell pd ((rows df ! k) sc) = Inr ((rows df' ! k) sc)"
    and "to_datetime_cell pd ((rows df ! k) ec) = Inr ((rows df' ! k) ec)"
    and "dtypes df sc = Datetime64 \<and> dtypes df ec = Datetime64 \<longrightarrow> df' = df"
proof -
  from ok obtain task_col start_col end_col df1 where
    c: "cols Start_date = Some start_col" "cols End_date = Some end_col"
    and n1': "normalize_dates pd start_col df = Inr df1"
    and n2': "normalize_dates pd end_col df1 = Inr df'"
    by (rule create_gantt_chart_Inr)
  from c s e have eq: "start_col = sc" "end_col = ec" by simp_all
  have n1: "normalize_dates pd sc df = Inr df1" and n2: "normalize_dates pd ec df1 = Inr df'"
    using n1' n2' by (simp_all add: eq)
  have u1: "unchanged_outside {sc} df df1" and u2: "unchanged_outside {ec} df1 df'"
    using normalize_dates_Inr(1) [OF n1] normalize_dates_Inr(1) [OF n2] .
  have len1: "length (rows df1) = length (rows df)"
    using u1 by (simp add: unchanged_outside_def)
  have k1: "k < length (rows df1)" using k len1 by simp
  have a: "to_datetime_cell pd ((rows df ! k) sc) = Inr ((rows df1 ! k) sc)"
    using n1 k by (rule normalize_dates_cells)
  have b: "to_datetime_cell pd ((rows df1 ! k) ec) = Inr ((rows df' ! k) ec)"
    using n2 k1 by (rule normalize_dates_cells)
  have d1: "is_date ((rows df1 ! k) sc)"
    using normalize_dates_Inr(2) [OF n1] k1 by simp
  show "dtypes df sc = Datetime64 \<and> dtypes df ec = Datetime64 \<longrightarrow> df' = df"
    using normalize_dates_Inr(4) [OF n1] normalize_dates_Inr(4) [OF n2] by auto
  show "to_datetime_cell pd ((rows df ! k) sc) = Inr ((rows df' ! k) sc)"
  proof (cases "sc = ec")
    case True
    have "to_datetime_cell pd ((rows df1 ! k) sc) = Inr ((rows df1 ! k) sc)"
      using d1 by (rule to_datetime_cell_date)
    then have "(rows df' ! k) sc = (rows df1 ! k) sc" using b True by simp
    then show ?thesis using a by simp
  next
    case False
    then have "(rows df' ! k) sc = (rows df1 ! k) sc"
      using u2 k1 by (intro unchanged_outside_nth [where S = "{ec}"]) simp_all
    then show ?thesis using a by simp
  qed
  show "to_datetime_cell pd ((rows df ! k) ec) = Inr ((rows df' ! k) ec)"
  proof (cases "sc = ec")
    case True
    have "to_datetime_cell pd ((rows df1 ! k) sc) = Inr ((rows df1 ! k) sc)"
      using d1 by (rule to_datetime_cell_date)
    then have "(rows df' ! k) sc = (rows df1 ! k) sc" using b True by simp
    then show ?thesis using a True by simp
  next
    case False
    then have "(rows df1 ! k) ec = (rows df ! k) ec"
      using u1 k by (intro unchanged_outside_nth [where S = "{sc}"]) simp_all
    then show ?thesis using b by simp
  qed
qed

lemma unchanged_outside_mono:
  "unchanged_outside S df df' \<Longrightarrow> S \<subseteq> T \<Longrightarrow> unchanged_outside T df df'"
  by (auto simp: unchanged_outside_def)

lemma create_gantt_chart_snd:
  assumes s: "cols Start_date = Some sc" and e: "cols End_date = Some ec"
  shows "unchanged_outside {sc, ec} df (snd (create_gantt_chart pd df cols cc bg grid))"
    and "dtypes df sc = Datetime64 \<and> dtypes df ec = Datetime64
         \<longrightarrow> snd (create_gantt_chart pd df cols cc bg grid) = df"
proof -
  let ?R = "create_gantt_chart pd df cols cc bg grid"
  have "unchanged_outside {sc, ec} df (snd ?R)
      \<and> (dtypes df sc = Datetime64 \<and> dtypes df ec = Datetime64 \<longrightarrow> snd ?R = df)"
  proof (cases "cols Task")
    case None
    then show ?thesis by (simp add: create_gantt_chart_def unchanged_outside_refl)
  next
    case (Some tc)
    show ?thesis
    proof (cases "normalize_dates pd sc df")
      case (Inl err)
      then show ?thesis
        using Some s e by (simp add: create_gantt_chart_def unchanged_outside_refl)
    next
      case (Inr df1)
      have u1: "unchanged_outside {sc, ec} df df1"
        using normalize_dates_Inr(1) [OF Inr] by (rule unchanged_outside_mono) simp
      have same1: "dtypes df sc = Datetime64 \<Longrightarrow> df1 = df"
        using normalize_dates_Inr(4) [OF Inr] .
      show ?thesis
      proof (cases "normalize_dates pd ec df1")
        case (Inl err)
        then have "snd ?R = df1"
          using Some s e Inr by (simp add: create_gantt_chart_def)
        then show ?thesis using u1 same1 by auto
      next
        case inr2: (Inr df2)
        have "unchanged_outside ({sc, ec} \<union> {ec}) df df2"
          using u1 normalize_dates_Inr(1) [OF inr2] by (rule unchanged_outside_trans)
        then have u2: "unchanged_outside {sc, ec} df df2" by (simp add: insert_absorb)
        have same2: "dtypes df1 ec = Datetime64 \<Longrightarrow> df2 = df1"
          using normalize_dates_Inr(4) [OF inr2] .
        have "snd ?R = df2"
          using Some s e Inr inr2 by (simp add: create_gantt_chart_def)
        then show ?thesis using u2 same1 same2 by auto
      qed
    qed
  qed
  then show "unchanged_outside {sc, ec} df (snd ?R)"
    and "dtypes df sc = Datetime64 \<and> dtypes df ec = Datetime64 \<longrightarrow> snd ?R = df"
    by blast+
qed

lemma to_datetime_error: "to_datetime pd col rs = Inl e \<Longrightarrow> e \<noteq> ValueError_NaT_range"
proof (induction rs)
  case Nil
  then show ?case by simp
next
  case (Cons r rs)
  show ?case
  proof (cases "to_datetime_cell pd (r col)")
    case (Inl e')
    then have "e = e'" using Cons.prems by simp
    moreover have "e' \<noteq> ValueError_NaT_range"
      using Inl by (cases "r col") (auto split: option.splits)
    ultimately show ?thesis by simp
  next
    case (Inr c)
    then show ?thesis using Cons by (auto split: sum.splits)
  qed
qed

lemma normalize_dates_error: "normalize_dates pd col df = Inl e \<Longrightarrow> e \<noteq> ValueError_NaT_range"
  by (auto simp: normalize_dates_def split: if_splits sum.splits dest: to_datetime_error)

lemma py_sorted_error: "py_sorted xs = Inl e \<Longrightarrow> e \<noteq> ValueError_NaT_range"
  by (auto simp: py_sorted_def split: if_splits)

lemma series_min_None: "series_min ds = None \<longleftrightarrow> ds = []"
  by (simp add: series_min_def split: list.splits)

lemma series_max_None: "series_max ds = None \<longleftrightarrow> ds = []"
  by (simp add: series_max_def split: list.splits)

lemma sort_values_Nil_iff:
  assumes "sorts_ascending pd"
  shows "sort_values pd key rs = [] \<longleftrightarrow> rs = []"
proof -
  have "mset (sort_values pd key rs) = mset rs"
    using assms by (simp add: sorts_ascending_def)
  then show ?thesis by (metis mset_zero_iff)
qed

lemma layout_NaT_range_iff:
  assumes "sorts_ascending pd"
  shows "layout pd df tc sc ec pc dc cc bg grid = Inl ValueError_NaT_range \<longleftrightarrow> rows df = []"
proof
  assume "layout pd df tc sc ec pc dc cc bg grid = Inl ValueError_NaT_range"
  then have "series_min (map (\<lambda>r. cell_date (r sc)) (sort_values pd (date_key sc) (rows df))) = None
      \<or> series_max (map (\<lambda>r. cell_date (r ec)) (sort_values pd (date_key sc) (rows df))) = None"
    unfolding layout_def Let_def
    by (auto split: sum.splits if_splits option.splits prod.splits dest: py_sorted_error)
  then have "sort_values pd (date_key sc) (rows df) = []"
    by (auto simp: series_min_None series_max_None)
  then show "rows df = []" using sort_values_Nil_iff [OF assms] by blast
next
  assume "rows df = []"
  then have "sort_values pd (date_key sc) (rows df) = []"
    using sort_values_Nil_iff [OF assms] by simp
  then show "layout pd df tc sc ec pc dc cc bg grid = Inl ValueError_NaT_range"
    unfolding layout_def Let_def
    by (simp add: py_sorted_def unique_def series_min_def series_max_def)
qed

lemma normalize_dates_empty:
  assumes "rows df = []" and "col \<in> set (columns df)"
  obtains df' where "normalize_dates pd col df = Inr df'" "rows df' = []" "columns df' = columns df"
  using assms by (cases "dtypes df col = Datetime64") (auto simp: normalize_dates_def)

subsection \<open>Zero tasks and the exceptions raised\<close>

text \<open>
  C8 (as amended). When the table has no rows (and the mapped columns exist), the layout
  engine fails and returns no chart: it raises the \<^verbatim>\<open>ValueError\<close> of the date-range
  construction on \<^verbatim>\<open>NaT\<close> bounds, and it raises this error for no other table. The
  schema resolver raises only its \<^verbatim>\<open>ValueError\<close> listing the missing roles.
\<close>

theorem create_gantt_chart_zero_tasks:
  "sorts_ascending pd \<Longrightarrow>
   cols Task = Some tc \<Longrightarrow> cols Start_date = Some sc \<Longrightarrow> cols End_date = Some ec \<Longrightarrow>
   sc \<in> set (columns df) \<Longrightarrow> ec \<in> set (columns df) \<Longrightarrow>
   (rows df = [] \<longrightarrow>
      fst (create_gantt_chart pd df cols cc bg grid) = Inl ValueError_NaT_range
      \<and> rows (snd (create_gantt_chart pd df cols cc bg grid)) = [])
   \<and> (fst (create_gantt_chart pd df cols cc bg grid) = Inl ValueError_NaT_range \<longrightarrow> rows df = [])
   \<and> (detect_columns names = Inl e \<longrightarrow>
        e = ValueError_required_columns (filter (unmatched names) required_cols))"
proof -
  assume asc: "sorts_ascending pd"
    and t: "cols Task = Some tc" and s: "cols Start_date = Some sc" and e: "cols End_date = Some ec"
    and sc: "sc \<in> set (columns df)" and ec: "ec \<in> set (columns df)"
  let ?R = "create_gantt_chart pd df cols cc bg grid"
  have empty: "fst ?R = Inl ValueError_NaT_range \<and> rows (snd ?R) = []" if r: "rows df = []"
  proof -
    from r sc obtain df1 where n1: "normalize_dates pd sc df = Inr df1"
      and r1: "rows df1 = []" and c1: "columns df1 = columns df"
      by (rule normalize_dates_empty)
    from r1 ec c1 obtain df2 where n2: "normalize_dates pd ec df1 = Inr df2"
      and r2: "rows df2 = []"
      by (metis normalize_dates_empty)
    have "layout pd df2 tc sc ec (cols Phase) (cols Duration) cc bg grid = Inl ValueError_NaT_range"
      using r2 layout_NaT_range_iff [OF asc] by blast
    then show ?thesis
      using t s e n1 n2 r2 by (simp add: create_gantt_chart_def)
  qed
  have only: "rows df = []" if f: "fst ?R = Inl ValueError_NaT_range"
  proof (cases "normalize_dates pd sc df")
    case (Inl err)
    then have "fst ?R = Inl err" using t s e by (simp add: create_gantt_chart_def)
    then show ?thesis using f normalize_dates_error [OF Inl] by simp
  next
    case (Inr df1)
    show ?thesis
    proof (cases "normalize_dates pd ec df1")
      case (Inl err)
      then have "fst ?R = Inl err" using t s e Inr by (simp add: create_gantt_chart_def)
      then show ?thesis using f normalize_dates_error [OF Inl] by simp
    next
      case inr2: (Inr df2)
      have "fst ?R = layout pd df2 tc sc ec (cols Phase) (cols Duration) cc bg grid"
        using t s e Inr inr2 by (simp add: create_gantt_chart_def)
      then have "layout pd df2 tc sc ec (cols Phase) (cols Duration) cc bg grid
          = Inl ValueError_NaT_range"
        using f by simp
      then have "rows df2 = []"
        by (simp only: layout_NaT_range_iff [OF asc])
      moreover have "length (rows df1) = length (rows df)" "length (rows df2) = length (rows df1)"
        using normalize_dates_Inr(1) [OF Inr] normalize_dates_Inr(1) [OF inr2]
        by (simp_all add: unchanged_outside_def)
      ultimately show ?thesis by simp
    qed
  qed
  have schema: "e = ValueError_required_columns (filter (unmatched names) required_cols)"
    if "detect_columns names = Inl e" for e
  proof -
    have "filter (\<lambda>col. column_mapping names col = None) required_cols
        = filter (unmatched names) required_cols"
      by (simp add: column_mapping_None_iff)
    then show ?thesis
      using that by (simp add: detect_columns_def Let_def split: if_splits)
  qed
  show ?thesis
    using empty only schema by blast
qed

theorem create_gantt_chart_zero_tasks_witness:
  "sorts_ascending pandas_stable
   \<and> plain_mapping Task = Some ''Task'' \<and> plain_mapping Start_date = Some ''Start''
   \<and> plain_mapping End_date = Some ''End''
   \<and> ''Start'' \<in> set (columns no_tasks) \<and> ''End'' \<in> set (columns no_tasks)
   \<and> rows no_tasks = []
   \<and> fst (create_gantt_chart pandas_stable no_tasks plain_mapping None ''#1f2937'' ''#ffffff'')
       = Inl ValueError_NaT_range"
proof -
  have t: "plain_mapping Task = Some ''Task''" and s: "plain_mapping Start_date = Some ''Start''"
    and e: "plain_mapping End_date = Some ''End''"
    by (simp_all add: plain_mapping_def)
  have c: "''Start'' \<in> set (columns no_tasks)" "''End'' \<in> set (columns no_tasks)"
    and r: "rows no_tasks = []"
    by (simp_all add: no_tasks_def)
  from create_gantt_chart_zero_tasks [OF sorts_ascending_stable t s e c, of None "''#1f2937''" "''#ffffff''"] r
  have "fst (create_gantt_chart pandas_stable no_tasks plain_mapping None ''#1f2937'' ''#ffffff'')
       = Inl ValueError_NaT_range"
    by blast
  then show ?thesis
    using sorts_ascending_stable t s e c r by (intro conjI)
qed

text \<open>
  The claim as first stated, that the three named errors are the only signals, fails:
  when the phase column holds text in one row and a blank in another, sorting the distinct
  phase values raises \<^verbatim>\<open>TypeError\<close>.
\<close>

theorem create_gantt_chart_type_error_counterexample:
  "fst (create_gantt_chart pandas_stable blank_phase phase_mapping None ''#1f2937'' ''#ffffff'')
     = Inl TypeError_not_orderable
   \<and> TypeError_not_orderable \<noteq> ValueError_NaT_range
   \<and> TypeError_not_orderable \<noteq> DateParseError ''soon''
   \<and> TypeError_not_orderable \<noteq> ValueError_required_columns [Task]"
  by (simp add: blank_phase_def phase_table_def phase_row_def phase_mapping_def layout_eval)

lemma whole_days_small:
  "e < s + 2 * ns_per_day \<Longrightarrow> max 1 ((e - s) div ns_per_day) = 1"
  unfolding ns_per_day_def by (simp add: max_def) linarith

lemma whole_days_large:
  "s + ns_per_day \<le> e \<Longrightarrow> max 1 ((e - s) div ns_per_day) = (e - s) div ns_per_day"
  unfolding ns_per_day_def by (simp add: max_def)

lemma whole_days_same_time:
  assumes "nanos a = nanos b" and "stamp_value a < stamp_value b"
  shows "max 1 ((stamp_value b - stamp_value a) div ns_per_day) = date2num b - date2num a"
proof -
  have "stamp_value b - stamp_value a = (date2num b - date2num a) * ns_per_day"
    using assms(1) by (simp add: stamp_value_def algebra_simps)
  moreover have "0 < date2num b - date2num a"
    using assms by (simp add: stamp_value_def ns_per_day_def)
  ultimately show ?thesis by (simp add: ns_per_day_def)
qed

subsection \<open>Bar width\<close>

text \<open>
  C3 (as amended). Every row of the table gets one bar, and the width of the bar in days
  is the larger of 1 and \<^verbatim>\<open>(end - start).days\<close>, the difference in whole days rounded
  down: exactly 1 whenever the end is less than two whole days after the start, and so
  whenever the end is not after the start; and \<^verbatim>\<open>(end - start).days\<close> whenever the end
  is at least one whole day after the start. When start and end have the same time of day
  and the end is after the start, this is the number of calendar days between them. The
  bar starts at the stored start, and the dates stored in the table are the ones the date
  conversion gives for the original cells (the original cells themselves when the
  columns already hold dates): the clamp does not touch them.
\<close>

theorem bar_width_clamped:
  "sorts_ascending pd \<Longrightarrow>
   create_gantt_chart pd df cols cc bg grid = (Inr ch, df') \<Longrightarrow>
   cols Start_date = Some sc \<Longrightarrow> cols End_date = Some ec \<Longrightarrow>
   length (bars ch) = length (rows df')
   \<and> mset (rows_by_start pd df' sc) = mset (rows df')
   \<and> (\<forall>i < length (rows df').
        width (bars ch ! i)
          = max 1 ((date_key ec (rows_by_start pd df' sc ! i)
                     - date_key sc (rows_by_start pd df' sc ! i)) div ns_per_day)
        \<and> (date_key ec (rows_by_start pd df' sc ! i)
              < date_key sc (rows_by_start pd df' sc ! i) + 2 * ns_per_day
             \<longrightarrow> width (bars ch ! i) = 1)
        \<and> (date_key sc (rows_by_start pd df' sc ! i) + ns_per_day
              \<le> date_key ec (rows_by_start pd df' sc ! i)
             \<longrightarrow> width (bars ch ! i)
                 = (date_key ec (rows_by_start pd df' sc ! i)
                     - date_key sc (rows_by_start pd df' sc ! i)) div ns_per_day)
        \<and> (nanos (cell_date ((rows_by_start pd df' sc ! i) sc))
              = nanos (cell_date ((rows_by_start pd df' sc ! i) ec))
             \<and> date_key sc (rows_by_start pd df' sc ! i) < date_key ec (rows_by_start pd df' sc ! i)
             \<longrightarrow> width (bars ch ! i)
                 = date2num (cell_date ((rows_by_start pd df' sc ! i) ec))
                   - date2num (cell_date ((rows_by_start pd df' sc ! i) sc)))
        \<and> left (bars ch ! i) = cell_date ((rows_by_start pd df' sc ! i) sc))
   \<and> length (rows df') = length (rows df)
   \<and> (\<forall>k < length (rows df).
        to_datetime_cell pd ((rows df ! k) sc) = Inr ((rows df' ! k) sc)
        \<and> to_datetime_cell pd ((rows df ! k) ec) = Inr ((rows df' ! k) ec))
   \<and> (dtypes df sc = Datetime64 \<and> dtypes df ec = Datetime64 \<longrightarrow> df' = df)"
proof -
  assume asc: "sorts_ascending pd"
    and ok: "create_gantt_chart pd df cols cc bg grid = (Inr ch, df')"
    and s: "cols Start_date = Some sc" and e: "cols End_date = Some ec"
  from ok obtain tc where t: "cols Task = Some tc"
    by (auto elim: create_gantt_chart_Inr)
  let ?rs = "rows_by_start pd df' sc"
  note succ = create_gantt_chart_success [OF ok t s e]
  have m: "mset ?rs = mset (rows df')" and len: "length ?rs = length (rows df')"
    using sorts_ascendingD [OF asc] by simp_all
  have bl: "length (bars ch) = length (rows df')"
    by (simp add: succ(2) plan_bars_length len)
  have w: "width (bars ch ! i) = max 1 ((date_key ec (?rs ! i) - date_key sc (?rs ! i)) div ns_per_day)"
    and lft: "left (bars ch ! i) = cell_date ((?rs ! i) sc)" if "i < length (rows df')" for i
    using that by (simp_all add: succ(2) plan_bars_nth len make_bar_sel duration_days_max date_key_def)
  have w1: "width (bars ch ! i) = 1"
    if "i < length (rows df')" "date_key ec (?rs ! i) < date_key sc (?rs ! i) + 2 * ns_per_day" for i
    using w [OF that(1)] whole_days_small [OF that(2)] by simp
  have w2: "width (bars ch ! i) = (date_key ec (?rs ! i) - date_key sc (?rs ! i)) div ns_per_day"
    if "i < length (rows df')" "date_key sc (?rs ! i) + ns_per_day \<le> date_key ec (?rs ! i)" for i
    using w [OF that(1)] whole_days_large [OF that(2)] by simp
  have w3: "width (bars ch ! i)
      = date2num (cell_date ((?rs ! i) ec)) - date2num (cell_date ((?rs ! i) sc))"
    if "i < length (rows df')"
      "nanos (cell_date ((?rs ! i) sc)) = nanos (cell_date ((?rs ! i) ec))
       \<and> date_key sc (?rs ! i) < date_key ec (?rs ! i)" for i
    using w [OF that(1)] that(2)
      whole_days_same_time [of "cell_date ((?rs ! i) sc)" "cell_date ((?rs ! i) ec)"]
    by (simp add: date_key_def)
  have l: "length (rows df') = length (rows df)"
    using succ(5) by (simp add: unchanged_outside_def)
  have st: "to_datetime_cell pd ((rows df ! k) sc) = Inr ((rows df' ! k) sc)
        \<and> to_datetime_cell pd ((rows df ! k) ec) = Inr ((rows df' ! k) ec)"
    if "k < length (rows df)" for k
    using create_gantt_chart_stored_dates(1,2) [OF ok s e that] by simp
  have same: "dtypes df sc = Datetime64 \<and> dtypes df ec = Datetime64 \<longrightarrow> df' = df"
  proof (cases "rows df")
    case Nil
    then have "rows df' = []" using l by simp
    then show ?thesis using succ(3) len by simp
  next
    case (Cons r rs)
    then have "0 < length (rows df)" by simp
    then show ?thesis by (rule create_gantt_chart_stored_dates(3) [OF ok s e])
  qed
  show ?thesis
    using bl m w w1 w2 w3 lft l st same by blast
qed

lemma create_gantt_chart_datetime_table:
  assumes "cols Start_date = Some sc" and "cols End_date = Some ec"
    and "dtypes df sc = Datetime64" and "dtypes df ec = Datetime64"
    and "\<not> isl (fst (create_gantt_chart pd df cols cc bg grid))"
  shows "\<exists>ch. create_gantt_chart pd df cols cc bg grid = (Inr ch, df)"
proof -
  have "snd (create_gantt_chart pd df cols cc bg grid) = df"
    using create_gantt_chart_snd(2) [OF assms(1,2)] assms(3,4) by blast
  moreover obtain ch where "fst (create_gantt_chart pd df cols cc bg grid) = Inr ch"
    using assms(5) by (cases "fst (create_gantt_chart pd df cols cc bg grid)") auto
  ultimately show ?thesis by (metis prod.collapse)
qed

theorem bar_width_clamped_witness:
  "sorts_ascending pandas_stable
   \<and> plain_mapping Start_date = Some ''Start'' \<and> plain_mapping End_date = Some ''End''
   \<and> (\<exists>ch. create_gantt_chart pandas_stable two_tasks plain_mapping None ''#1f2937'' ''#ffffff''
             = (Inr ch, two_tasks)
          \<and> date_key ''Start'' (rows_by_start pandas_stable two_tasks ''Start'' ! 0) + ns_per_day
              \<le> date_key ''End'' (rows_by_start pandas_stable two_tasks ''Start'' ! 0)
          \<and> width (bars ch ! 0) = 4
          \<and> left (bars ch ! 0) = \<lparr>year = 2025, month = 2, day = 1, nanos = 0\<rparr>)
   \<and> (\<exists>ch. create_gantt_chart pandas_stable backwards_task plain_mapping None ''#1f2937'' ''#ffffff''
             = (Inr ch, backwards_task)
          \<and> date_key ''End'' (rows_by_start pandas_stable backwards_task ''Start'' ! 0)
              < date_key ''Start'' (rows_by_start pandas_stable backwards_task ''Start'' ! 0)
                + 2 * ns_per_day
          \<and> width (bars ch ! 0) = 1
          \<and> left (bars ch ! 0) = \<lparr>year = 2025, month = 1, day = 10, nanos = 0\<rparr>)"
proof -
  have s: "plain_mapping Start_date = Some ''Start''" and e: "plain_mapping End_date = Some ''End''"
    by (simp_all add: plain_mapping_def)
  have first: "\<exists>ch. create_gantt_chart pandas_stable two_tasks plain_mapping None ''#1f2937'' ''#ffffff''
             = (Inr ch, two_tasks)
          \<and> date_key ''Start'' (rows_by_start pandas_stable two_tasks ''Start'' ! 0) + ns_per_day
              \<le> date_key ''End'' (rows_by_start pandas_stable two_tasks ''Start'' ! 0)
          \<and> width (bars ch ! 0) = 4
          \<and> left (bars ch ! 0) = \<lparr>year = 2025, month = 2, day = 1, nanos = 0\<rparr>"
  proof -
    have d: "dtypes two_tasks ''Start'' = Datetime64" "dtypes two_tasks ''End'' = Datetime64"
      by (simp_all add: two_tasks_def date_table_def)
    have "\<not> isl (fst (create_gantt_chart pandas_stable two_tasks plain_mapping None
        ''#1f2937'' ''#ffffff''))"
      by code_simp
    with s e d obtain ch where ok:
      "create_gantt_chart pandas_stable two_tasks plain_mapping None ''#1f2937'' ''#ffffff''
        = (Inr ch, two_tasks)"
      using create_gantt_chart_datetime_table by blast
    have h: "date_key ''Start'' (rows_by_start pandas_stable two_tasks ''Start'' ! 0) + ns_per_day
        \<le> date_key ''End'' (rows_by_start pandas_stable two_tasks ''Start'' ! 0)"
      by code_simp
    have v: "(date_key ''End'' (rows_by_start pandas_stable two_tasks ''Start'' ! 0)
           - date_key ''Start'' (rows_by_start pandas_stable two_tasks ''Start'' ! 0)) div ns_per_day
          = 4"
      by code_simp
    have c: "cell_date ((rows_by_start pandas_stable two_tasks ''Start'' ! 0) ''Start'')
        = \<lparr>year = 2025, month = 2, day = 1, nanos = 0\<rparr>"
      by code_simp
    have l: "0 < length (rows two_tasks)"
      by (simp add: two_tasks_def date_table_def)
    from bar_width_clamped [OF sorts_ascending_stable ok s e] l h
    have "width (bars ch ! 0)
        = (date_key ''End'' (rows_by_start pandas_stable two_tasks ''Start'' ! 0)
           - date_key ''Start'' (rows_by_start pandas_stable two_tasks ''Start'' ! 0)) div ns_per_day"
      and "left (bars ch ! 0)
        = cell_date ((rows_by_start pandas_stable two_tasks ''Start'' ! 0) ''Start'')"
      by blast+
    then have "width (bars ch ! 0) = 4"
      and "left (bars ch ! 0) = \<lparr>year = 2025, month = 2, day = 1, nanos = 0\<rparr>"
      by (simp_all only: v c)
    with ok h show ?thesis by (intro exI conjI)
  qed
  have second: "\<exists>ch. create_gantt_chart pandas_stable backwards_task plain_mapping None ''#1f2937'' ''#ffffff''
             = (Inr ch, backwards_task)
          \<and> date_key ''End'' (rows_by_start pandas_stable backwards_task ''Start'' ! 0)
              < date_key ''Start'' (rows_by_start pandas_stable backwards_task ''Start'' ! 0)
                + 2 * ns_per_day
          \<and> width (bars ch ! 0) = 1
          \<and> left (bars ch ! 0) = \<lparr>year = 2025, month = 1, day = 10, nanos = 0\<rparr>"
  proof -
    have d: "dtypes backwards_task ''Start'' = Datetime64" "dtypes backwards_task ''End'' = Datetime64"
      by (simp_all add: backwards_task_def date_table_def)
    have "\<not> isl (fst (create_gantt_chart pandas_stable backwards_task plain_mapping None
        ''#1f2937'' ''#ffffff''))"
      by code_simp
    with s e d obtain ch where ok:
      "create_gantt_chart pandas_stable backwards_task plain_mapping None ''#1f2937'' ''#ffffff''
        = (Inr ch, backwards_task)"
      using create_gantt_chart_datetime_table by blast
    have h: "date_key ''End'' (rows_by_start pandas_stable backwards_task ''Start'' ! 0)
        < date_key ''Start'' (rows_by_start pandas_stable backwards_task ''Start'' ! 0)
          + 2 * ns_per_day"
      by code_simp
    have c: "cell_date ((rows_by_start pandas_stable backwards_task ''Start'' ! 0) ''Start'')
        = \<lparr>year = 2025, month = 1, day = 10, nanos = 0\<rparr>"
      by code_simp
    have l: "0 < length (rows backwards_task)"
      by (simp add: backwards_task_def date_table_def)
    from bar_width_clamped [OF sorts_ascending_stable ok s e] l h
    have "width (bars ch ! 0) = 1"
      and "left (bars ch ! 0)
        = cell_date ((rows_by_start pandas_stable backwards_task ''Start'' ! 0) ''Start'')"
      by blast+
    then have "width (bars ch ! 0) = 1"
      and "left (bars ch ! 0) = \<lparr>year = 2025, month = 1, day = 10, nanos = 0\<rparr>"
      by (simp_all only: c)
    with ok h show ?thesis by (intro exI conjI)
  qed
  show ?thesis
    using sorts_ascending_stable s e first second by (intro conjI)
qed

text \<open>
  The claim as first stated, that the width is \<^verbatim>\<open>(end - start).days\<close> whenever the end is
  after the start, fails for a task that starts at 08:00 and ends at 20:00 of the same
  day: the end is after the start, \<^verbatim>\<open>(end - start).days\<close> is 0, and the bar is 1 day wide.
\<close>

theorem bar_width_same_day_counterexample:
  "stamp_value \<lparr>year = 2025, month = 1, day = 1, nanos = 28800000000000\<rparr>
     < stamp_value \<lparr>year = 2025, month = 1, day = 1, nanos = 72000000000000\<rparr>
   \<and> (stamp_value \<lparr>year = 2025, month = 1, day = 1, nanos = 72000000000000\<rparr>
        - stamp_value \<lparr>year = 2025, month = 1, day = 1, nanos = 28800000000000\<rparr>) div ns_per_day = 0
   \<and> map_sum id (\<lambda>ch. map width (bars ch))
        (fst (create_gantt_chart pandas_stable same_day_task plain_mapping None ''#1f2937'' ''#ffffff''))
       = Inr [1]"
  by code_simp









subsection \<open>What a call changes\<close>




end
